theory Spec2Isabelle
  imports Main
begin

section \<open>C strings and the libc parsers\<close>

text \<open>
  A line handed out by the input stream is a NUL-terminated C string: every string
  function of the source sees the bytes up to the first NUL only.
\<close>

definition c_str :: "string \<Rightarrow> string" where
  "c_str s = takeWhile (\<lambda>ch. ch \<noteq> CHR 0x00) s"

definition strlen :: "string \<Rightarrow> nat" where
  "strlen s = length (c_str s)"

text \<open>\<open>strncmp(a, b, n) == 0\<close>: the first \<open>n\<close> characters agree, a NUL ending the comparison.\<close>

definition strncmp_eq :: "string \<Rightarrow> string \<Rightarrow> nat \<Rightarrow> bool" where
  "strncmp_eq a b n = (take n (c_str a) = take n (c_str b))"

text \<open>
  Modelled from the spec: \<open>t_strcut\<close> (the string library, not under src/) returns the
  part of the string before the first occurrence of the cut character; the spec calls the
  version field "tab-separated".
\<close>

definition t_strcut :: "string \<Rightarrow> char \<Rightarrow> string" where
  "t_strcut s cutchar = takeWhile (\<lambda>ch. ch \<noteq> cutchar) (c_str s)"

definition isspace_c :: "char \<Rightarrow> bool" where
  "isspace_c ch = (ch = CHR 0x20 \<or> ch = CHR 0x09 \<or> ch = CHR 0x0A \<or> ch = CHR 0x0B
                   \<or> ch = CHR 0x0C \<or> ch = CHR 0x0D)"

definition isdigit_c :: "char \<Rightarrow> bool" where
  "isdigit_c ch = (48 \<le> (of_char ch :: nat) \<and> (of_char ch :: nat) \<le> 57)"

definition digits_val :: "string \<Rightarrow> nat" where
  "digits_val ds = foldl (\<lambda>a ch. 10 * a + ((of_char ch :: nat) - 48)) 0 ds"

text \<open>The subject sequence of \<open>strtol\<close>/\<open>strtoul\<close> in base 10: white space is skipped,
  one optional sign is read, then the longest run of decimal digits. The result is the
  sign and the digits (no digits: the number is 0).\<close>

definition subject_seq :: "string \<Rightarrow> bool \<times> string" where
  "subject_seq s =
     (let t = dropWhile isspace_c (c_str s);
          neg = (t \<noteq> [] \<and> hd t = CHR ''-'');
          u = (if t \<noteq> [] \<and> (hd t = CHR ''-'' \<or> hd t = CHR ''+'') then tl t else t)
      in (neg, takeWhile isdigit_c u))"

text \<open>\<open>strtoul(s, NULL, 10)\<close> with a 64-bit \<open>unsigned long\<close>: the value saturates at
  \<open>ULONG_MAX\<close>, a minus sign negates it modulo \<open>2^64\<close>.\<close>

definition strtoul :: "string \<Rightarrow> nat" where
  "strtoul s =
     (let (neg, ds) = subject_seq s; v = digits_val ds
      in if v > 2 ^ 64 - 1 then 2 ^ 64 - 1
         else if neg then (2 ^ 64 - v) mod 2 ^ 64 else v)"

text \<open>\<open>(unsigned int)strtoul(args, NULL, 10)\<close>: the cast keeps the low 32 bits.\<close>

definition strtoul_uint :: "string \<Rightarrow> nat" where
  "strtoul_uint s = strtoul s mod 2 ^ 32"

text \<open>\<open>atoi\<close> is \<open>(int)strtol(s, NULL, 10)\<close>: \<open>strtol\<close> saturates at the bounds of a
  64-bit \<open>long\<close>, the cast to \<open>int\<close> keeps the low 32 bits as a signed value.\<close>

definition strtol :: "string \<Rightarrow> int" where
  "strtol s =
     (let (neg, ds) = subject_seq s; v = int (digits_val ds)
      in if neg then (if v > 2 ^ 63 then - (2 ^ 63) else - v)
         else (if v > 2 ^ 63 - 1 then 2 ^ 63 - 1 else v))"

definition atoi :: "string \<Rightarrow> int" where
  "atoi s = (strtol s + 2 ^ 31) mod 2 ^ 32 - 2 ^ 31"

section \<open>The line stream pair\<close>

text \<open>
  Modelled from the spec: the input stream (\<open>istream\<close>, not under src/) "buffers raw input
  and extracts newline-delimited text" and "fails on disconnect or on line length
  overflow". What the peer and the kernel deliver to the coming reads is a script held by
  the stream; \<open>is_lines\<close> are the complete lines buffered and not yet handed out, and
  \<open>is_mem\<close> are the buffer regions of the lines already handed out, in order. A closed
  stream reads as disconnected.
\<close>

datatype read_result = RdNothing | RdEof | RdFull | RdLines "string list"

record istream =
  is_script :: "read_result list"
  is_lines :: "string list"
  is_mem :: "string list"
  is_closed :: bool

text \<open>\<open>i_stream_read\<close>: 0 nothing to read, -1 disconnected, -2 buffer full, otherwise the
  (positive) number of bytes read.\<close>

definition i_stream_read :: "istream \<Rightarrow> int \<times> istream" where
  "i_stream_read s =
     (if is_closed s then (- 1, s)
      else case is_script s of
        [] \<Rightarrow> (0, s)
      | RdNothing # rs \<Rightarrow> (0, s\<lparr>is_script := rs\<rparr>)
      | RdEof # rs \<Rightarrow> (- 1, s\<lparr>is_script := rs\<rparr>)
      | RdFull # rs \<Rightarrow> (- 2, s\<lparr>is_script := rs\<rparr>)
      | RdLines ls # rs \<Rightarrow>
          (1 + int (sum_list (map length ls)),
           s\<lparr>is_script := rs, is_lines := is_lines s @ ls\<rparr>))"

text \<open>\<open>i_stream_next_line\<close>: the next complete line, or NULL when none is buffered.\<close>

definition i_stream_next_line :: "istream \<Rightarrow> (string \<times> istream) option" where
  "i_stream_next_line s =
     (case is_lines s of
        [] \<Rightarrow> None
      | l # ls \<Rightarrow> Some (l, s\<lparr>is_lines := ls, is_mem := is_mem s @ [l]\<rparr>))"

definition i_stream_close :: "istream \<Rightarrow> istream" where
  "i_stream_close s = s\<lparr>is_closed := True\<rparr>"

text \<open>\<open>safe_memset(line, 0, strlen(line))\<close> on the region of the line handed out last.\<close>

definition scrub_str :: "string \<Rightarrow> string" where
  "scrub_str l = replicate (strlen l) (CHR 0x00) @ drop (strlen l) l"

definition scrub_last :: "istream \<Rightarrow> istream" where
  "scrub_last s =
     (case rev (is_mem s) of
        [] \<Rightarrow> s
      | l # before \<Rightarrow> s\<lparr>is_mem := rev before @ [scrub_str l]\<rparr>)"

text \<open>
  Modelled from the spec: the output stream (\<open>ostream\<close>, not under src/) "queues bytes and
  reports backlog size". How many bytes the socket takes at each attempt is a script held
  by the stream; \<open>os_buf\<close> are the unsent bytes, \<open>os_wire\<close> the bytes the peer received.
  Sending to a closed stream and flushing one fail.
\<close>

datatype write_result = WrAccept nat | WrError

record ostream =
  os_script :: "write_result list"
  os_buf :: string
  os_wire :: string
  os_closed :: bool

definition o_stream_send :: "ostream \<Rightarrow> string \<Rightarrow> int \<times> ostream" where
  "o_stream_send s data =
     (if os_closed s then (- 1, s)
      else case os_script s of
        [] \<Rightarrow> (int (length data), s\<lparr>os_buf := os_buf s @ data\<rparr>)
      | WrError # rs \<Rightarrow> (- 1, s\<lparr>os_script := rs\<rparr>)
      | WrAccept n # rs \<Rightarrow>
          (int (length data),
           s\<lparr>os_script := rs, os_buf := drop n (os_buf s @ data),
             os_wire := os_wire s @ take n (os_buf s @ data)\<rparr>))"

definition o_stream_flush :: "ostream \<Rightarrow> int \<times> ostream" where
  "o_stream_flush s =
     (if os_closed s then (- 1, s)
      else case os_script s of
        [] \<Rightarrow> ((if os_buf s = [] then 1 else 0), s)
      | WrError # rs \<Rightarrow> (- 1, s\<lparr>os_script := rs\<rparr>)
      | WrAccept n # rs \<Rightarrow>
          ((if drop n (os_buf s) = [] then 1 else 0),
           s\<lparr>os_script := rs, os_buf := drop n (os_buf s),
             os_wire := os_wire s @ take n (os_buf s)\<rparr>))"

definition o_stream_close :: "ostream \<Rightarrow> ostream" where
  "o_stream_close s = s\<lparr>os_closed := True\<rparr>"

definition o_stream_get_buffer_used_size :: "ostream \<Rightarrow> nat" where
  "o_stream_get_buffer_used_size s = length (os_buf s)"

definition OUTBUF_THROTTLE_SIZE :: nat where
  "OUTBUF_THROTTLE_SIZE = 1024 * 50"

section \<open>Connections, listeners and the world\<close>

type_synonym addr = nat
type_synonym hid = nat
type_synonym lid = nat

text \<open>\<open>struct auth_client_connection\<close>. \<open>c_io\<close> tells whether \<open>conn->io\<close> is non-NULL,
  \<open>c_request_handler\<close> is \<open>None\<close> for a NULL handler; \<open>conn->auth\<close> is the listener's.\<close>

record conn =
  c_listener :: lid
  c_refcount :: int
  c_fd :: int
  c_io :: bool
  c_pid :: nat
  c_connect_uid :: nat
  c_version_received :: bool
  c_request_handler :: "hid option"
  c_input :: istream
  c_output :: ostream

text \<open>The fields of \<open>struct auth_master_listener\<close> this file reads: the client array, the
  number of masters, the pid, the \<open>auth\<close> settings and the timeout handle (its period in
  milliseconds).\<close>

record listener =
  l_clients :: "addr list"
  l_masters :: nat
  l_pid :: nat
  l_verbose_debug :: bool
  l_mech_handshake :: string
  l_to_clients :: "nat option"

text \<open>Every call that leaves this file is logged, in order.\<close>

datatype event =
    EvInfo string string
  | EvError string "nat list"
  | EvIStreamRead addr
  | EvIStreamClose addr
  | EvIStreamUnref addr
  | EvOStreamSend addr string
  | EvOStreamFlush addr
  | EvOStreamClose addr
  | EvOStreamUnref addr
  | EvIoAdd addr int
  | EvIoRemove addr
  | EvNetDisconnect int
  | EvHandlerCreate hid addr bool
  | EvHandlerSet hid nat nat
  | EvHandlerUnref hid
  | EvAuthBegin hid string
  | EvAuthContinue hid string
  | EvCheckTimeouts hid
  | EvSafeMemset addr nat
  | EvFree addr
  | EvTimeoutAdd lid nat
  | EvTimeoutRemove lid

text \<open>The heap of connections (a freed connection is \<open>None\<close>), the listeners, the log,
  the next handler and connection addresses the allocators return, and the static
  \<open>connect_uid_counter\<close>.\<close>

record world =
  w_conns :: "addr \<Rightarrow> conn option"
  w_listeners :: "lid \<Rightarrow> listener"
  w_trace :: "event list"
  w_next_handler :: hid
  w_next_addr :: addr
  w_connect_uid_counter :: nat

text \<open>What aborts the process or reads memory that is gone: a failed \<open>i_assert\<close>, an
  access through a pointer to a freed connection, a read of the client array past its
  current count, a call through a NULL handler.\<close>

datatype fault =
    AssertFailed string
  | UseAfterFree addr
  | OutOfBounds nat
  | NullHandler addr

text \<open>
  Modelled from the spec: the Auth Request Engine (\<open>auth-request-handler\<close>, not under
  src/) "asynchronously invokes a reply callback" with "either reply text or a null
  sentinel"; releasing it "may invoke the null-sentinel callback synchronously or later".
  What an entry point of the engine calls back into this file before it returns is a
  parameter: a reply or the null sentinel for a connection, or the public
  \<open>auth_client_connection_destroy\<close>. The constants of \<open>auth-client-interface.h\<close> (not
  under src/) are parameters too.
\<close>

datatype reentry = CbReply addr string | CbNull addr | Destroy addr

record env =
  protocol_major :: int
  protocol_minor :: nat
  max_line_length :: nat
  eng_auth_begin :: "hid \<Rightarrow> string \<Rightarrow> reentry list \<times> bool"
  eng_auth_continue :: "hid \<Rightarrow> string \<Rightarrow> reentry list \<times> bool"
  eng_release_sync :: "hid \<Rightarrow> bool"
  eng_check_timeouts :: "hid \<Rightarrow> reentry list"

definition bindF :: "(fault + 'a) \<Rightarrow> ('a \<Rightarrow> fault + 'b) \<Rightarrow> fault + 'b" where
  "bindF m f = (case m of Inl e \<Rightarrow> Inl e | Inr x \<Rightarrow> f x)"

definition log_ev :: "event list \<Rightarrow> world \<Rightarrow> world" where
  "log_ev evs w = w\<lparr>w_trace := w_trace w @ evs\<rparr>"

definition set_conn :: "addr \<Rightarrow> conn \<Rightarrow> world \<Rightarrow> world" where
  "set_conn c cn w = w\<lparr>w_conns := (w_conns w)(c \<mapsto> cn)\<rparr>"

definition verbose_debug :: "world \<Rightarrow> conn \<Rightarrow> bool" where
  "verbose_debug w cn = l_verbose_debug (w_listeners w (c_listener cn))"

section \<open>Reference counting and destruction\<close>

text \<open>\<open>auth_client_connection_unref\<close> (lines 294-302).\<close>

definition auth_client_connection_unref :: "world \<Rightarrow> addr \<Rightarrow> fault + world" where
  "auth_client_connection_unref w c =
     (case w_conns w c of
        None \<Rightarrow> Inl (UseAfterFree c)
      | Some cn \<Rightarrow>
          if c_refcount cn - 1 > 0
          then Inr (set_conn c (cn\<lparr>c_refcount := c_refcount cn - 1\<rparr>) w)
          else Inr (log_ev [EvIStreamUnref c, EvOStreamUnref c, EvFree c]
                      (w\<lparr>w_conns := (w_conns w)(c := None)\<rparr>)))"

text \<open>\<open>auth_client_send\<close> (lines 27-57); the reply is printed with \<open>%s\<close>.\<close>

definition auth_client_send :: "world \<Rightarrow> addr \<Rightarrow> string \<Rightarrow> fault + world" where
  "auth_client_send w c reply =
     (case w_conns w c of
        None \<Rightarrow> Inl (UseAfterFree c)
      | Some cn \<Rightarrow>
          if \<not> c_refcount cn > 1 then Inl (AssertFailed ''conn->refcount > 1'')
          else
            let str = c_str reply;
                w1 = (if verbose_debug w cn then log_ev [EvInfo ''client out: %s'' str] w
                      else w);
                out = snd (o_stream_send (c_output cn) (str @ [CHR 0x0A]));
                w2 = log_ev [EvOStreamSend c (str @ [CHR 0x0A])] w1
            in if o_stream_get_buffer_used_size out \<ge> OUTBUF_THROTTLE_SIZE
               then (if c_io cn
                     then Inr (set_conn c (cn\<lparr>c_output := out, c_io := False\<rparr>)
                                 (log_ev [EvIoRemove c] w2))
                     else Inr (set_conn c (cn\<lparr>c_output := out\<rparr>) w2))
               else Inr (set_conn c (cn\<lparr>c_output := out\<rparr>) w2))"

text \<open>\<open>auth_callback\<close> (lines 59-70): a NULL reply is \<open>None\<close>.\<close>

definition auth_callback :: "world \<Rightarrow> string option \<Rightarrow> addr \<Rightarrow> fault + world" where
  "auth_callback w reply c =
     (case reply of
        None \<Rightarrow> auth_client_connection_unref w c
      | Some r \<Rightarrow> auth_client_send w c r)"

text \<open>
  Modelled from the spec: \<open>auth_request_handler_unref\<close> (not under src/) releases the
  engine, "which itself may invoke the null-sentinel callback synchronously or later";
  the callback's context is the connection the handler was created for (line 107).
\<close>

definition auth_request_handler_unref :: "env \<Rightarrow> world \<Rightarrow> hid \<Rightarrow> addr \<Rightarrow> fault + world" where
  "auth_request_handler_unref E w h ctx =
     (let w1 = log_ev [EvHandlerUnref h] w
      in if eng_release_sync E h then auth_callback w1 None ctx else Inr w1)"

text \<open>\<open>array_delete\<close> of the first slot holding the connection (lines 269-275).\<close>

definition clients_delete :: "addr \<Rightarrow> world \<Rightarrow> lid \<Rightarrow> world" where
  "clients_delete c w l =
     w\<lparr>w_listeners := (w_listeners w)
          (l := (w_listeners w l)\<lparr>l_clients := remove1 c (l_clients (w_listeners w l))\<rparr>)\<rparr>"

text \<open>\<open>auth_client_connection_destroy\<close> (lines 261-292).\<close>

definition auth_client_connection_destroy :: "env \<Rightarrow> world \<Rightarrow> addr \<Rightarrow> fault + world" where
  "auth_client_connection_destroy E w c =
     (case w_conns w c of
        None \<Rightarrow> Inl (UseAfterFree c)
      | Some cn \<Rightarrow>
          if c_fd cn = - 1 then Inr w
          else
            let w1 = clients_delete c w (c_listener cn);
                w2 = log_ev [EvIStreamClose c, EvOStreamClose c] w1;
                w3 = (if c_io cn then log_ev [EvIoRemove c] w2 else w2);
                w4 = log_ev [EvNetDisconnect (c_fd cn)] w3;
                cn' = cn\<lparr>c_input := i_stream_close (c_input cn),
                        c_output := o_stream_close (c_output cn),
                        c_io := False, c_fd := - 1\<rparr>;
                w5 = set_conn c cn' w4
            in bindF (case c_request_handler cn of
                        None \<Rightarrow> Inr w5
                      | Some h \<Rightarrow> auth_request_handler_unref E w5 h c)
                 (\<lambda>w6. auth_client_connection_unref w6 c))"

section \<open>The engine's entry points\<close>

text \<open>The engine calls back into this file before an entry point returns.\<close>

definition run_reentry :: "env \<Rightarrow> world \<Rightarrow> reentry \<Rightarrow> fault + world" where
  "run_reentry E w r =
     (case r of
        CbReply c s \<Rightarrow> auth_callback w (Some s) c
      | CbNull c \<Rightarrow> auth_callback w None c
      | Destroy c \<Rightarrow> auth_client_connection_destroy E w c)"

fun run_reentries :: "env \<Rightarrow> world \<Rightarrow> reentry list \<Rightarrow> fault + world" where
  "run_reentries E w [] = Inr w"
| "run_reentries E w (r # rs) =
     (case run_reentry E w r of Inl e \<Rightarrow> Inl e | Inr w' \<Rightarrow> run_reentries E w' rs)"

text \<open>
  Modelled from the spec: the engine's "begin authentication" and "continue
  authentication" entry points (not under src/) "return a boolean; false means the engine
  judges the connection unrecoverable"; its "periodic timeout check" returns nothing.
\<close>

definition auth_request_handler_auth_begin ::
  "env \<Rightarrow> world \<Rightarrow> hid \<Rightarrow> string \<Rightarrow> fault + (bool \<times> world)" where
  "auth_request_handler_auth_begin E w h args =
     (case run_reentries E (log_ev [EvAuthBegin h (c_str args)] w)
             (fst (eng_auth_begin E h (c_str args))) of
        Inl e \<Rightarrow> Inl e
      | Inr w' \<Rightarrow> Inr (snd (eng_auth_begin E h (c_str args)), w'))"

definition auth_request_handler_auth_continue ::
  "env \<Rightarrow> world \<Rightarrow> hid \<Rightarrow> string \<Rightarrow> fault + (bool \<times> world)" where
  "auth_request_handler_auth_continue E w h args =
     (case run_reentries E (log_ev [EvAuthContinue h (c_str args)] w)
             (fst (eng_auth_continue E h (c_str args))) of
        Inl e \<Rightarrow> Inl e
      | Inr w' \<Rightarrow> Inr (snd (eng_auth_continue E h (c_str args)), w'))"

definition auth_request_handler_check_timeouts :: "env \<Rightarrow> world \<Rightarrow> hid \<Rightarrow> fault + world" where
  "auth_request_handler_check_timeouts E w h =
     run_reentries E (log_ev [EvCheckTimeouts h] w) (eng_check_timeouts E h)"

section \<open>The registry\<close>

text \<open>\<open>auth_client_connection_lookup\<close> (lines 304-318): the scan reads \<open>clients[i]->pid\<close>
  of every slot up to the first match.\<close>

fun lookup_scan :: "world \<Rightarrow> addr list \<Rightarrow> nat \<Rightarrow> fault + addr option" where
  "lookup_scan w [] pid = Inr None"
| "lookup_scan w (a # as) pid =
     (case w_conns w a of
        None \<Rightarrow> Inl (UseAfterFree a)
      | Some cn \<Rightarrow> if c_pid cn = pid then Inr (Some a) else lookup_scan w as pid)"

definition auth_client_connection_lookup :: "world \<Rightarrow> lid \<Rightarrow> nat \<Rightarrow> fault + addr option" where
  "auth_client_connection_lookup w l pid = lookup_scan w (l_clients (w_listeners w l)) pid"

section \<open>The handshake\<close>

text \<open>\<open>auth_client_input_cpid\<close> (lines 72-114). The result is the returned flag and the
  world; \<open>args\<close> is \<open>line + 5\<close>.\<close>

text \<open>The end of the function (lines 103-113): the handshake is complete.\<close>

definition cpid_bind :: "env \<Rightarrow> world \<Rightarrow> addr \<Rightarrow> nat \<Rightarrow> fault + (bool \<times> world)" where
  "cpid_bind E w c pid =
     (case w_conns w c of
        None \<Rightarrow> Inl (UseAfterFree c)
      | Some cn \<Rightarrow>
          let h = w_next_handler w;
              master = (l_masters (w_listeners w (c_listener cn)) \<noteq> 0);
              w1 = log_ev [EvHandlerCreate h c master, EvHandlerSet h (c_connect_uid cn) pid]
                     (w\<lparr>w_next_handler := Suc h\<rparr>)
          in Inr (True,
                  set_conn c (cn\<lparr>c_refcount := c_refcount cn + 1,
                                 c_request_handler := Some h, c_pid := pid\<rparr>) w1))"

definition auth_client_input_cpid ::
  "env \<Rightarrow> world \<Rightarrow> addr \<Rightarrow> string \<Rightarrow> fault + (bool \<times> world)" where
  "auth_client_input_cpid E w c args =
     (case w_conns w c of
        None \<Rightarrow> Inl (UseAfterFree c)
      | Some cn \<Rightarrow>
          if c_pid cn \<noteq> 0 then Inl (AssertFailed ''conn->pid == 0'')
          else
            let pid = strtoul_uint args in
            if pid = 0
            then Inr (False, log_ev [EvError ''BUG: Authentication client said it's PID 0'' []] w)
            else
              case auth_client_connection_lookup w (c_listener cn) pid of
                Inl e \<Rightarrow> Inl e
              | Inr None \<Rightarrow> cpid_bind E w c pid
              | Inr (Some old) \<Rightarrow>
                  if old = c then Inl (AssertFailed ''old != conn'')
                  else
                    case w_conns w old of
                      None \<Rightarrow> Inl (UseAfterFree old)
                    | Some on \<Rightarrow>
                        let w1 = set_conn old (on\<lparr>c_input := snd (i_stream_read (c_input on))\<rparr>)
                                   (log_ev [EvIStreamRead old] w)
                        in if fst (i_stream_read (c_input on)) = - 1
                           then (case auth_client_connection_destroy E w1 old of
                                   Inl e \<Rightarrow> Inl e
                                 | Inr w2 \<Rightarrow> cpid_bind E w2 c pid)
                           else Inr (False,
                                  log_ev [EvError
                                    ''BUG: Authentication client gave a PID %u of existing connection''
                                    [pid]] w1))"

text \<open>The version check of lines 181-183.\<close>

definition version_mismatch :: "env \<Rightarrow> string \<Rightarrow> bool" where
  "version_mismatch E line =
     (\<not> strncmp_eq line (''VERSION'' @ [CHR 0x09]) 8 \<or>
      atoi (t_strcut (drop 8 line) (CHR 0x09)) \<noteq> protocol_major E)"

lemma cpid_True_bound:
  assumes "auth_client_input_cpid E w c args = Inr (True, w2)"
  shows "\<exists>cn. w_conns w2 c = Some cn \<and> c_request_handler cn \<noteq> None"
  using assms
  by (auto simp: auth_client_input_cpid_def cpid_bind_def set_conn_def log_ev_def Let_def
      split: option.splits if_splits sum.splits)

definition handshake_measure :: "world \<Rightarrow> addr \<Rightarrow> nat" where
  "handshake_measure w c =
     (case w_conns w c of
        None \<Rightarrow> 0
      | Some cn \<Rightarrow>
          if c_request_handler cn \<noteq> None then 0
          else Suc (length (is_lines (c_input cn))))"

text \<open>The handshake loop of \<open>auth_client_input\<close> (lines 173-200). The flag of the result
  tells whether the loop was left with a handler bound (\<open>True\<close>) or the function
  returned from inside it (\<open>False\<close>).\<close>

function handshake_loop :: "env \<Rightarrow> world \<Rightarrow> addr \<Rightarrow> fault + (bool \<times> world)" where
  "handshake_loop E w c =
     (case w_conns w c of
        None \<Rightarrow> Inl (UseAfterFree c)
      | Some cn \<Rightarrow>
          if c_request_handler cn \<noteq> None then Inr (True, w)
          else
            case i_stream_next_line (c_input cn) of
              None \<Rightarrow> Inr (False, w)
            | Some (line, inp) \<Rightarrow>
                if \<not> c_version_received cn
                then
                  if version_mismatch E line
                  then (case auth_client_connection_destroy E
                               (log_ev [EvError
                                  ''Authentication client not compatible with this server (mixed old and new binaries?)''
                                  []] (set_conn c (cn\<lparr>c_input := inp\<rparr>) w)) c of
                          Inl e \<Rightarrow> Inl e
                        | Inr w' \<Rightarrow> Inr (False, w'))
                  else handshake_loop E
                         (set_conn c (cn\<lparr>c_input := inp, c_version_received := True\<rparr>) w) c
                else if strncmp_eq line (''CPID'' @ [CHR 0x09]) 5
                then
                  (case auth_client_input_cpid E (set_conn c (cn\<lparr>c_input := inp\<rparr>) w) c
                          (drop 5 line) of
                     Inl e \<Rightarrow> Inl e
                   | Inr (ok, w2) \<Rightarrow>
                       if \<not> ok
                       then (case auth_client_connection_destroy E w2 c of
                               Inl e \<Rightarrow> Inl e
                             | Inr w' \<Rightarrow> Inr (False, w'))
                       else handshake_loop E w2 c)
                else handshake_loop E (set_conn c (cn\<lparr>c_input := inp\<rparr>) w) c)"
  by pat_completeness auto

termination handshake_loop
  apply (relation "measure (\<lambda>(E, w, c). handshake_measure w c)")
     apply simp
    apply (auto simp: handshake_measure_def set_conn_def i_stream_next_line_def
      split: list.splits)[1]
   apply (auto simp: handshake_measure_def dest!: cpid_True_bound)[1]
  apply (auto simp: handshake_measure_def set_conn_def i_stream_next_line_def
      split: list.splits)[1]
  done

section \<open>Command dispatch\<close>

text \<open>\<open>auth_client_handle_line\<close> (lines 133-150); the handler is called through
  \<open>conn->request_handler\<close>.\<close>

definition auth_client_handle_line ::
  "env \<Rightarrow> world \<Rightarrow> addr \<Rightarrow> string \<Rightarrow> fault + (bool \<times> world)" where
  "auth_client_handle_line E w c line =
     (case w_conns w c of
        None \<Rightarrow> Inl (UseAfterFree c)
      | Some cn \<Rightarrow>
          let w1 = (if verbose_debug w cn then log_ev [EvInfo ''client in: %s'' (c_str line)] w
                    else w)
          in if strncmp_eq line (''AUTH'' @ [CHR 0x09]) 5
             then (case c_request_handler cn of
                     None \<Rightarrow> Inl (NullHandler c)
                   | Some h \<Rightarrow> auth_request_handler_auth_begin E w1 h (drop 5 line))
             else if strncmp_eq line (''CONT'' @ [CHR 0x09]) 5
             then (case c_request_handler cn of
                     None \<Rightarrow> Inl (NullHandler c)
                   | Some h \<Rightarrow> auth_request_handler_auth_continue E w1 h (drop 5 line))
             else Inr (True, w1))"

text \<open>\<open>safe_memset(line, 0, strlen(line))\<close> (line 206): the line lies in the buffer of the
  connection's input stream, which is gone once the connection is freed.\<close>

definition safe_memset_line :: "world \<Rightarrow> addr \<Rightarrow> string \<Rightarrow> fault + world" where
  "safe_memset_line w c line =
     (case w_conns w c of
        None \<Rightarrow> Inl (UseAfterFree c)
      | Some cn \<Rightarrow>
          Inr (set_conn c (cn\<lparr>c_input := scrub_last (c_input cn)\<rparr>)
                 (log_ev [EvSafeMemset c (strlen line)] w)))"

definition pending :: "world \<Rightarrow> addr \<Rightarrow> nat" where
  "pending w c =
     (case w_conns w c of None \<Rightarrow> 0 | Some cn \<Rightarrow> length (is_lines (c_input cn)))"

text \<open>A step keeps the input of \<open>c\<close>: if \<open>c\<close> is still allocated afterwards, it was
  before and its buffered lines and handed-out regions are the same.\<close>

definition input_kept :: "world \<Rightarrow> world \<Rightarrow> addr \<Rightarrow> bool" where
  "input_kept w w' c =
     (case w_conns w' c of
        None \<Rightarrow> True
      | Some cn' \<Rightarrow>
          (case w_conns w c of
             None \<Rightarrow> False
           | Some cn \<Rightarrow> is_lines (c_input cn') = is_lines (c_input cn)
                        \<and> is_mem (c_input cn') = is_mem (c_input cn)))"

lemma input_kept_refl: "input_kept w w c"
  by (simp add: input_kept_def split: option.splits)

lemma input_kept_trans: "input_kept w w1 c \<Longrightarrow> input_kept w1 w2 c \<Longrightarrow> input_kept w w2 c"
  by (auto simp: input_kept_def split: option.splits)

lemma unref_input_kept:
  "auth_client_connection_unref w a = Inr w' \<Longrightarrow> input_kept w w' c"
  by (auto simp: auth_client_connection_unref_def input_kept_def set_conn_def log_ev_def
      split: option.splits if_splits)

lemma send_input_kept:
  "auth_client_send w a r = Inr w' \<Longrightarrow> input_kept w w' c"
  by (auto simp: auth_client_send_def input_kept_def set_conn_def log_ev_def Let_def
      split: option.splits if_splits)

lemma callback_input_kept:
  "auth_callback w r a = Inr w' \<Longrightarrow> input_kept w w' c"
  by (auto simp: auth_callback_def split: option.splits
      intro: unref_input_kept send_input_kept)

lemma destroy_input_kept:
  "auth_client_connection_destroy E w a = Inr w' \<Longrightarrow> input_kept w w' c"
  by (auto simp: auth_client_connection_destroy_def auth_request_handler_unref_def
      auth_callback_def auth_client_connection_unref_def bindF_def clients_delete_def
      i_stream_close_def
      input_kept_def set_conn_def log_ev_def Let_def
      split: option.splits if_splits sum.splits)

lemma run_reentry_input_kept:
  "run_reentry E w r = Inr w' \<Longrightarrow> input_kept w w' c"
  by (auto simp: run_reentry_def split: reentry.splits
      intro: callback_input_kept destroy_input_kept)

lemma run_reentries_input_kept:
  "run_reentries E w rs = Inr w' \<Longrightarrow> input_kept w w' c"
proof (induction rs arbitrary: w)
  case Nil
  then show ?case by (simp add: input_kept_refl)
next
  case (Cons r rs)
  then show ?case
    by (auto split: sum.splits intro: input_kept_trans run_reentry_input_kept)
qed

lemma input_kept_log_ev [simp]: "input_kept (log_ev evs w) w' c = input_kept w w' c"
  by (simp add: input_kept_def log_ev_def split: option.splits)

lemma input_kept_log_ev2 [simp]: "input_kept w (log_ev evs w') c = input_kept w w' c"
  by (simp add: input_kept_def log_ev_def split: option.splits)

lemma auth_begin_input_kept:
  "auth_request_handler_auth_begin E w h args = Inr (ret, w') \<Longrightarrow> input_kept w w' c"
  by (auto simp: auth_request_handler_auth_begin_def split: sum.splits
      dest!: run_reentries_input_kept[where c = c])

lemma auth_continue_input_kept:
  "auth_request_handler_auth_continue E w h args = Inr (ret, w') \<Longrightarrow> input_kept w w' c"
  by (auto simp: auth_request_handler_auth_continue_def split: sum.splits
      dest!: run_reentries_input_kept[where c = c])

lemma handle_line_input_kept:
  "auth_client_handle_line E w a line = Inr (ret, w') \<Longrightarrow> input_kept w w' c"
  by (auto simp: auth_client_handle_line_def Let_def input_kept_refl
      split: option.splits if_splits
      dest!: auth_begin_input_kept[where c = c] auth_continue_input_kept[where c = c])

lemma active_loop_decreases:
  assumes "w_conns w c = Some cn"
    and "i_stream_next_line (c_input cn) = Some (line, inp)"
    and "auth_client_handle_line E (set_conn c (cn\<lparr>c_input := inp\<rparr>) w) c line = Inr (ret, w2)"
    and "safe_memset_line w2 c line = Inr w3"
  shows "pending w3 c < pending w c"
proof -
  from assms(4) obtain cn2 where c2: "w_conns w2 c = Some cn2"
    and w3: "w3 = set_conn c (cn2\<lparr>c_input := scrub_last (c_input cn2)\<rparr>)
                    (log_ev [EvSafeMemset c (strlen line)] w2)"
    by (auto simp: safe_memset_line_def split: option.splits)
  from handle_line_input_kept[OF assms(3), of c] c2
  have "is_lines (c_input cn2) = inp_lines"
    if "inp_lines = is_lines inp" for inp_lines
    using that by (simp add: input_kept_def set_conn_def)
  then have l2: "is_lines (c_input cn2) = is_lines inp" by simp
  from assms(2) have "length (is_lines inp) < length (is_lines (c_input cn))"
    by (auto simp: i_stream_next_line_def split: list.splits)
  then show ?thesis
    using assms(1) l2
    by (simp add: pending_def w3 set_conn_def log_ev_def scrub_last_def split: list.splits)
qed

text \<open>The dispatch loop of \<open>auth_client_input\<close> (lines 203-213); \<open>t_push\<close> and \<open>t_pop\<close>
  only frame the data stack.\<close>

function active_loop :: "env \<Rightarrow> world \<Rightarrow> addr \<Rightarrow> fault + world" where
  "active_loop E w c =
     (case w_conns w c of
        None \<Rightarrow> Inl (UseAfterFree c)
      | Some cn \<Rightarrow>
          case i_stream_next_line (c_input cn) of
            None \<Rightarrow> Inr w
          | Some (line, inp) \<Rightarrow>
              case auth_client_handle_line E (set_conn c (cn\<lparr>c_input := inp\<rparr>) w) c line of
                Inl e \<Rightarrow> Inl e
              | Inr (ret, w2) \<Rightarrow>
                  case safe_memset_line w2 c line of
                    Inl e \<Rightarrow> Inl e
                  | Inr w3 \<Rightarrow>
                      if \<not> ret then auth_client_connection_destroy E w3 c
                      else active_loop E w3 c)"
  by pat_completeness auto

termination active_loop
  apply (relation "measure (\<lambda>(E, w, c). pending w c)")
   apply simp
  apply (auto dest: active_loop_decreases)
  done

text \<open>\<open>auth_client_input\<close> (lines 152-215), the read callback of the connection.\<close>

definition auth_client_input :: "env \<Rightarrow> world \<Rightarrow> addr \<Rightarrow> fault + world" where
  "auth_client_input E w c =
     (case w_conns w c of
        None \<Rightarrow> Inl (UseAfterFree c)
      | Some cn \<Rightarrow>
          let r = fst (i_stream_read (c_input cn));
              w1 = set_conn c (cn\<lparr>c_input := snd (i_stream_read (c_input cn))\<rparr>)
                     (log_ev [EvIStreamRead c] w)
          in if r = 0 then Inr w1
             else if r = - 1 then auth_client_connection_destroy E w1 c
             else if r = - 2
             then auth_client_connection_destroy E
                    (log_ev [EvError ''BUG: Auth client %u sent us more than %d bytes''
                               [c_pid cn, max_line_length E]] w1) c
             else
               case handshake_loop E w1 c of
                 Inl e \<Rightarrow> Inl e
               | Inr (go_on, w2) \<Rightarrow>
                   if \<not> go_on then Inr w2
                   else
                     case w_conns w2 c of
                       None \<Rightarrow> Inl (UseAfterFree c)
                     | Some cn2 \<Rightarrow>
                         (case active_loop E
                                 (set_conn c (cn2\<lparr>c_refcount := c_refcount cn2 + 1\<rparr>) w2) c of
                            Inl e \<Rightarrow> Inl e
                          | Inr w3 \<Rightarrow> auth_client_connection_unref w3 c))"

section \<open>Creating a connection\<close>

text \<open>\<open>%u\<close>: the decimal digits of an unsigned number.\<close>

fun dec :: "nat \<Rightarrow> string" where
  "dec n = (if n < 10 then [char_of (48 + n)] else dec (n div 10) @ [char_of (48 + n mod 10)])"

declare dec.simps [simp del]

text \<open>\<open>auth_client_connection_create\<close> (lines 217-259). The allocator returns the next
  address; what the peer of the new socket will deliver and accept is given with the
  socket. The result is the returned pointer (\<open>None\<close> for NULL) and the world.\<close>

definition auth_client_connection_create ::
  "env \<Rightarrow> world \<Rightarrow> lid \<Rightarrow> int \<Rightarrow> read_result list \<Rightarrow> write_result list
     \<Rightarrow> fault + (addr option \<times> world)" where
  "auth_client_connection_create E w l fd incoming accepted =
     (let c = w_next_addr w;
          uid = (w_connect_uid_counter w + 1) mod 2 ^ 32;
          str = ''VERSION'' @ [CHR 0x09] @ dec (nat (protocol_major E)) @ [CHR 0x09] @
                dec (protocol_minor E) @ [CHR 0x0A] @
                ''SPID'' @ [CHR 0x09] @ dec (l_pid (w_listeners w l)) @ [CHR 0x0A] @
                ''CUID'' @ [CHR 0x09] @ dec uid @ [CHR 0x0A] @ ''DONE'' @ [CHR 0x0A];
          data = l_mech_handshake (w_listeners w l) @ str;
          sent = o_stream_send
                   \<lparr>os_script = accepted, os_buf = [], os_wire = [], os_closed = False\<rparr> data;
          cn = \<lparr>c_listener = l, c_refcount = 1, c_fd = fd, c_io = True, c_pid = 0,
                c_connect_uid = uid, c_version_received = False, c_request_handler = None,
                c_input = \<lparr>is_script = incoming, is_lines = [], is_mem = [], is_closed = False\<rparr>,
                c_output = snd sent\<rparr>;
          w1 = log_ev [EvIoAdd c fd, EvOStreamSend c data]
                 (w\<lparr>w_conns := (w_conns w)(c \<mapsto> cn),
                    w_listeners := (w_listeners w)
                      (l := (w_listeners w l)\<lparr>l_clients := l_clients (w_listeners w l) @ [c]\<rparr>),
                    w_next_addr := Suc c,
                    w_connect_uid_counter := uid\<rparr>)
      in if fst sent < 0
         then (case auth_client_connection_destroy E w1 c of
                 Inl e \<Rightarrow> Inl e
               | Inr w2 \<Rightarrow> Inr (None, w2))
         else Inr (Some c, w1))"

section \<open>Backpressure\<close>

text \<open>\<open>auth_client_output\<close> (lines 116-131), the flush callback; it always returns 1.\<close>

definition auth_client_output :: "env \<Rightarrow> world \<Rightarrow> addr \<Rightarrow> fault + world" where
  "auth_client_output E w c =
     (case w_conns w c of
        None \<Rightarrow> Inl (UseAfterFree c)
      | Some cn \<Rightarrow>
          let r = fst (o_stream_flush (c_output cn));
              out = snd (o_stream_flush (c_output cn));
              w1 = set_conn c (cn\<lparr>c_output := out\<rparr>) (log_ev [EvOStreamFlush c] w)
          in if r < 0 then auth_client_connection_destroy E w1 c
             else if o_stream_get_buffer_used_size out \<le> OUTBUF_THROTTLE_SIZE div 3
                     \<and> \<not> c_io cn
             then Inr (set_conn c (cn\<lparr>c_output := out, c_io := True\<rparr>)
                         (log_ev [EvIoAdd c (c_fd cn)] w1))
             else Inr w1)"

section \<open>The timeout sweep\<close>

text \<open>\<open>request_timeout\<close> (lines 320-333): \<open>count\<close> is read once before the loop, and
  \<open>clients[i]\<close> reads the array as it is when the slot is visited.\<close>

function request_timeout_loop :: "env \<Rightarrow> lid \<Rightarrow> nat \<Rightarrow> nat \<Rightarrow> world \<Rightarrow> fault + world" where
  "request_timeout_loop E l count i w =
     (if i < count
      then
        if \<not> i < length (l_clients (w_listeners w l)) then Inl (OutOfBounds i)
        else
          case w_conns w (l_clients (w_listeners w l) ! i) of
            None \<Rightarrow> Inl (UseAfterFree (l_clients (w_listeners w l) ! i))
          | Some cn \<Rightarrow>
              (case c_request_handler cn of
                 None \<Rightarrow> request_timeout_loop E l count (Suc i) w
               | Some h \<Rightarrow>
                   (case auth_request_handler_check_timeouts E w h of
                      Inl e \<Rightarrow> Inl e
                    | Inr w' \<Rightarrow> request_timeout_loop E l count (Suc i) w'))
      else Inr w)"
  by pat_completeness auto

termination request_timeout_loop
  by (relation "measure (\<lambda>(E, l, count, i, w). count - i)") auto

definition request_timeout :: "env \<Rightarrow> world \<Rightarrow> lid \<Rightarrow> fault + world" where
  "request_timeout E w l =
     request_timeout_loop E l (length (l_clients (w_listeners w l))) 0 w"

text \<open>\<open>auth_client_connections_init\<close> and \<open>auth_client_connections_deinit\<close> (lines
  335-346).\<close>

definition auth_client_connections_init :: "world \<Rightarrow> lid \<Rightarrow> world" where
  "auth_client_connections_init w l =
     log_ev [EvTimeoutAdd l 5000]
       (w\<lparr>w_listeners := (w_listeners w)(l := (w_listeners w l)\<lparr>l_to_clients := Some 5000\<rparr>)\<rparr>)"

definition auth_client_connections_deinit :: "world \<Rightarrow> lid \<Rightarrow> world" where
  "auth_client_connections_deinit w l =
     (if l_to_clients (w_listeners w l) \<noteq> None
      then log_ev [EvTimeoutRemove l]
             (w\<lparr>w_listeners := (w_listeners w)(l := (w_listeners w l)\<lparr>l_to_clients := None\<rparr>)\<rparr>)
      else w)"

text \<open>
  Modelled from the spec: the event loop (\<open>ioloop\<close>, not under src/) runs the callback
  of a timeout at each period for as long as the timeout is registered: "a recurring
  timer ... fires at a fixed 5-second period".
\<close>

definition timer_fire :: "env \<Rightarrow> world \<Rightarrow> lid \<Rightarrow> fault + world" where
  "timer_fire E w l =
     (case l_to_clients (w_listeners w l) of
        None \<Rightarrow> Inr w
      | Some ms \<Rightarrow> request_timeout E w l)"

section \<open>Notions of the statements\<close>

text \<open>The calls logged between two worlds.\<close>

definition new_events :: "world \<Rightarrow> world \<Rightarrow> event list" where
  "new_events w w' = drop (length (w_trace w)) (w_trace w')"

text \<open>The references left when destroy has returned: the registry's is released, and
  the engine's too when the engine sends the null sentinel before its release returns.\<close>

definition refs_after_destroy :: "env \<Rightarrow> conn \<Rightarrow> int" where
  "refs_after_destroy E cn =
     c_refcount cn - 1 -
       (case c_request_handler cn of
          None \<Rightarrow> 0
        | Some h \<Rightarrow> if eng_release_sync E h then 1 else 0)"

text \<open>The connection after the closing steps of destroy, and the calls they make.\<close>

definition closed_conn :: "conn \<Rightarrow> conn" where
  "closed_conn cn =
     cn\<lparr>c_input := i_stream_close (c_input cn), c_output := o_stream_close (c_output cn),
        c_io := False, c_fd := - 1\<rparr>"

definition close_events :: "addr \<Rightarrow> conn \<Rightarrow> event list" where
  "close_events c cn =
     [EvIStreamClose c, EvOStreamClose c] @ (if c_io cn then [EvIoRemove c] else []) @
     [EvNetDisconnect (c_fd cn)] @
     (case c_request_handler cn of None \<Rightarrow> [] | Some h \<Rightarrow> [EvHandlerUnref h])"

text \<open>The calls of unref when the count reaches zero.\<close>

definition free_events :: "addr \<Rightarrow> event list" where
  "free_events c = [EvIStreamUnref c, EvOStreamUnref c, EvFree c]"

text \<open>The world in which destroy makes its last call, the unref of line 291, and the
  world it returns.\<close>

definition released :: "env \<Rightarrow> world \<Rightarrow> addr \<Rightarrow> conn \<Rightarrow> world" where
  "released E w c cn =
     w\<lparr>w_conns := (w_conns w)
          (c \<mapsto> (closed_conn cn)\<lparr>c_refcount := refs_after_destroy E cn + 1\<rparr>),
       w_listeners := (w_listeners w)
          (c_listener cn := (w_listeners w (c_listener cn))
             \<lparr>l_clients := remove1 c (l_clients (w_listeners w (c_listener cn)))\<rparr>),
       w_trace := w_trace w @ close_events c cn\<rparr>"

definition destroyed :: "env \<Rightarrow> world \<Rightarrow> addr \<Rightarrow> conn \<Rightarrow> world" where
  "destroyed E w c cn =
     w\<lparr>w_conns := (w_conns w)
          (c := if 0 < refs_after_destroy E cn
                then Some ((closed_conn cn)\<lparr>c_refcount := refs_after_destroy E cn\<rparr>)
                else None),
       w_listeners := (w_listeners w)
          (c_listener cn := (w_listeners w (c_listener cn))
             \<lparr>l_clients := remove1 c (l_clients (w_listeners w (c_listener cn)))\<rparr>),
       w_trace := w_trace w @ close_events c cn @
                  (if 0 < refs_after_destroy E cn then [] else free_events c)\<rparr>"

text \<open>The count covers the registry's reference, and the engine's when a handler is
  bound.\<close>

definition refs_ok :: "conn \<Rightarrow> bool" where
  "refs_ok cn = (1 \<le> c_refcount cn \<and> (c_request_handler cn = None \<or> 2 \<le> c_refcount cn))"

text \<open>The handlers whose timeout check a trace records, in order.\<close>

fun checked :: "event list \<Rightarrow> hid list" where
  "checked [] = []"
| "checked (EvCheckTimeouts h # evs) = h # checked evs"
| "checked (ev # evs) = checked evs"

text \<open>The handlers bound to the connections of a client array, in the array's order.\<close>

fun bound_handlers :: "world \<Rightarrow> addr list \<Rightarrow> hid list" where
  "bound_handlers w [] = []"
| "bound_handlers w (a # as) =
     (case w_conns w a of
        None \<Rightarrow> bound_handlers w as
      | Some cn \<Rightarrow>
          (case c_request_handler cn of
             None \<Rightarrow> bound_handlers w as
           | Some h \<Rightarrow> h # bound_handlers w as))"

text \<open>A timeout check that calls back delivers replies only, to connections that are
  allocated and hold more than one reference.\<close>

fun replies_only :: "world \<Rightarrow> reentry list \<Rightarrow> bool" where
  "replies_only w [] = True"
| "replies_only w (CbReply a s # rs) =
     ((case w_conns w a of None \<Rightarrow> False | Some cn \<Rightarrow> 1 < c_refcount cn) \<and> replies_only w rs)"
| "replies_only w (r # rs) = False"

definition sweep_ok :: "env \<Rightarrow> world \<Rightarrow> lid \<Rightarrow> bool" where
  "sweep_ok E w l =
     (\<forall>a \<in> set (l_clients (w_listeners w l)).
        case w_conns w a of
          None \<Rightarrow> False
        | Some cn \<Rightarrow>
            (case c_request_handler cn of
               None \<Rightarrow> True
             | Some h \<Rightarrow> replies_only w (eng_check_timeouts E h)))"

text \<open>Two worlds with the same listeners, the same allocated connections and the same
  handler and reference count in each; the second trace extends the first.\<close>

definition same_shape :: "world \<Rightarrow> world \<Rightarrow> bool" where
  "same_shape w w' =
     (w_listeners w' = w_listeners w \<and>
      (\<forall>a. map_option (\<lambda>cn. (c_request_handler cn, c_refcount cn)) (w_conns w' a) =
           map_option (\<lambda>cn. (c_request_handler cn, c_refcount cn)) (w_conns w a)) \<and>
      w_trace w' = w_trace w @ new_events w w')"

text \<open>The handler bound to a registered connection, if any.\<close>

definition handler_of :: "world \<Rightarrow> addr \<Rightarrow> hid option" where
  "handler_of w a = (case w_conns w a of None \<Rightarrow> None | Some cn \<Rightarrow> c_request_handler cn)"

text \<open>The input stream after its first buffered line was handed out.\<close>

definition advanced :: "istream \<Rightarrow> istream" where
  "advanced s = s\<lparr>is_lines := tl (is_lines s), is_mem := is_mem s @ [hd (is_lines s)]\<rparr>"

text \<open>The world after a handler was created for \<open>c\<close> and bound to \<open>pid\<close> (lines 104-112).\<close>

definition handler_bound :: "world \<Rightarrow> addr \<Rightarrow> conn \<Rightarrow> nat \<Rightarrow> world" where
  "handler_bound w c cn pid =
     set_conn c (cn\<lparr>c_refcount := c_refcount cn + 1,
                    c_request_handler := Some (w_next_handler w), c_pid := pid\<rparr>)
       (log_ev [EvHandlerCreate (w_next_handler w) c
                  (l_masters (w_listeners w (c_listener cn)) \<noteq> 0),
                EvHandlerSet (w_next_handler w) (c_connect_uid cn) pid]
          (w\<lparr>w_next_handler := Suc (w_next_handler w)\<rparr>))"

text \<open>The registry of a listener is well formed: no connection is registered twice, and
  every registered connection is allocated, open and registered with this listener.\<close>

definition registry_ok :: "world \<Rightarrow> lid \<Rightarrow> bool" where
  "registry_ok w l =
     (distinct (l_clients (w_listeners w l)) \<and>
      (\<forall>a \<in> set (l_clients (w_listeners w l)).
         case w_conns w a of
           None \<Rightarrow> False
         | Some an \<Rightarrow> c_listener an = l \<and> c_fd an \<noteq> - 1 \<and> refs_ok an))"

text \<open>At most one registered connection claims the pid.\<close>

definition pid_claimed_once :: "world \<Rightarrow> lid \<Rightarrow> nat \<Rightarrow> bool" where
  "pid_claimed_once w l pid =
     (length (filter (\<lambda>a. map_option c_pid (w_conns w a) = Some pid)
        (l_clients (w_listeners w l))) \<le> 1)"




section \<open>Example states\<close>

definition ex_istream :: istream where
  "ex_istream = \<lparr>is_script = [], is_lines = [], is_mem = [], is_closed = False\<rparr>"

definition ex_ostream :: ostream where
  "ex_ostream = \<lparr>os_script = [], os_buf = [], os_wire = [], os_closed = False\<rparr>"

definition ex_conn :: conn where
  "ex_conn = \<lparr>c_listener = 0, c_refcount = 2, c_fd = 7, c_io = True, c_pid = 555,
     c_connect_uid = 1, c_version_received = True, c_request_handler = Some 0,
     c_input = ex_istream, c_output = ex_ostream\<rparr>"

definition ex_listener :: listener where
  "ex_listener = \<lparr>l_clients = [], l_masters = 0, l_pid = 4000, l_verbose_debug = False,
     l_mech_handshake = ''MECH'' @ [CHR 0x09] @ ''PLAIN'' @ [CHR 0x0A], l_to_clients = Some 5000\<rparr>"

definition ex_world :: world where
  "ex_world = \<lparr>w_conns = (\<lambda>a. None)(10 \<mapsto> ex_conn),
     w_listeners = (\<lambda>l. ex_listener)(0 := ex_listener\<lparr>l_clients := [10]\<rparr>),
     w_trace = [], w_next_handler = 1, w_next_addr = 11, w_connect_uid_counter = 1\<rparr>"

definition ex_env :: env where
  "ex_env = \<lparr>protocol_major = 1, protocol_minor = 0, max_line_length = 8192,
     eng_auth_begin = (\<lambda>h args. ([], True)), eng_auth_continue = (\<lambda>h args. ([], True)),
     eng_release_sync = (\<lambda>h. True), eng_check_timeouts = (\<lambda>h. [])\<rparr>"

definition ex_slow_conn :: conn where
  "ex_slow_conn = ex_conn\<lparr>c_output := ex_ostream\<lparr>os_buf := replicate 51198 (CHR ''x'')\<rparr>\<rparr>"

definition ex_draining_conn :: conn where
  "ex_draining_conn =
     ex_conn\<lparr>c_io := False,
       c_output := ex_ostream\<lparr>os_buf := replicate 20000 (CHR ''x''), os_script := [WrAccept 5000]\<rparr>\<rparr>"

definition ex_handshaking_conn :: conn where
  "ex_handshaking_conn =
     ex_conn\<lparr>c_refcount := 1, c_fd := 8, c_pid := 0, c_connect_uid := 2,
       c_request_handler := None\<rparr>"

definition ex_other_conn :: conn where
  "ex_other_conn = ex_conn\<lparr>c_fd := 9, c_pid := 777, c_connect_uid := 3, c_request_handler := Some 2\<rparr>"

definition ex_world3 :: world where
  "ex_world3 = ex_world\<lparr>
     w_conns := (\<lambda>a. None)(10 \<mapsto> ex_conn, 11 \<mapsto> ex_handshaking_conn, 12 \<mapsto> ex_other_conn),
     w_listeners := (\<lambda>l. ex_listener)(0 := ex_listener\<lparr>l_clients := [12, 10, 11]\<rparr>),
     w_next_handler := 3, w_next_addr := 13, w_connect_uid_counter := 3\<rparr>"

definition ex_destroying_env :: env where
  "ex_destroying_env = ex_env\<lparr>eng_check_timeouts := (\<lambda>h. if h = 2 then [Destroy 12] else [])\<rparr>"

definition ex_fresh_conn :: conn where
  "ex_fresh_conn =
     ex_handshaking_conn\<lparr>c_version_received := False,
       c_input := ex_istream\<lparr>is_script := [RdLines [''VERSION'' @ [CHR 0x09] @ ''2'' @ [CHR 0x09] @ ''0'']]\<rparr>\<rparr>"

definition ex_version_line :: "string \<Rightarrow> string \<Rightarrow> string" where
  "ex_version_line major minor = ''VERSION'' @ [CHR 0x09] @ major @ [CHR 0x09] @ minor"

definition ex_world_reading :: "string list \<Rightarrow> world" where
  "ex_world_reading ls =
     set_conn 11 (ex_fresh_conn\<lparr>c_input := ex_istream\<lparr>is_script := [RdLines ls]\<rparr>\<rparr>) ex_world3"

definition ex_cpid_line :: "string \<Rightarrow> string" where
  "ex_cpid_line args = ''CPID'' @ [CHR 0x09] @ args"

definition ex_world_awaiting_pid :: "string list \<Rightarrow> world" where
  "ex_world_awaiting_pid ls =
     set_conn 11 (ex_handshaking_conn\<lparr>c_input := ex_istream\<lparr>is_script := [RdLines ls]\<rparr>\<rparr>)
       ex_world3"

definition ex_world_dup :: "read_result list \<Rightarrow> world" where
  "ex_world_dup old_script =
     set_conn 10 (ex_conn\<lparr>c_input := ex_istream\<lparr>is_script := old_script\<rparr>\<rparr>)
       (ex_world_awaiting_pid [ex_cpid_line ''555''])"

definition ex_auth_line :: string where
  "ex_auth_line = ''AUTH'' @ [CHR 0x09] @ ''1'' @ [CHR 0x09] @ ''PLAIN'' @ [CHR 0x09] @ ''resp=c2VjcmV0''"



definition ex_empty_world :: world where
  "ex_empty_world = \<lparr>w_conns = (\<lambda>a. None), w_listeners = (\<lambda>l. ex_listener),
     w_trace = [], w_next_handler = 0, w_next_addr = 10, w_connect_uid_counter = 0\<rparr>"

definition ex_pending_env :: env where
  "ex_pending_env = ex_env\<lparr>eng_release_sync := (\<lambda>h. False)\<rparr>"

definition ex_session :: "read_result list" where
  "ex_session = [RdLines [ex_version_line ''1'' ''0'', ex_cpid_line ''555'', ex_auth_line], RdEof]"

section \<open>Lifetime: destroy and unref\<close>

lemma destroy_closed:
  "w_conns w c = Some cn \<Longrightarrow> c_fd cn = - 1 \<Longrightarrow> auth_client_connection_destroy E w c = Inr w"
  by (simp add: auth_client_connection_destroy_def)

lemma destroy_as_unref:
  assumes "w_conns w c = Some cn" and "c_fd cn \<noteq> - 1" and "refs_ok cn"
  shows "auth_client_connection_destroy E w c =
         auth_client_connection_unref (released E w c cn) c"
  using assms
  by (auto simp: auth_client_connection_destroy_def released_def close_events_def refs_ok_def
      refs_after_destroy_def closed_conn_def clients_delete_def log_ev_def set_conn_def Let_def
      auth_request_handler_unref_def auth_callback_def auth_client_connection_unref_def
      bindF_def
      split: option.splits)

lemma unref_released:
  "auth_client_connection_unref (released E w c cn) c = Inr (destroyed E w c cn)"
  by (auto simp: released_def destroyed_def auth_client_connection_unref_def set_conn_def
      log_ev_def free_events_def)

lemma destroy_live:
  assumes "w_conns w c = Some cn" and "c_fd cn \<noteq> - 1" and "refs_ok cn"
  shows "auth_client_connection_destroy E w c = Inr (destroyed E w c cn)"
  using destroy_as_unref[OF assms] unref_released by simp

lemma new_events_append [simp]: "new_events w (w'\<lparr>w_trace := w_trace w @ evs\<rparr>) = evs"
  by (simp add: new_events_def)

lemma refs_after_destroy_nonneg: "refs_ok cn \<Longrightarrow> 0 \<le> refs_after_destroy E cn"
  by (auto simp: refs_ok_def refs_after_destroy_def split: option.splits)

text \<open>
  C2: destroy never frees the connection itself. On a live connection it is the closing
  steps followed by one call of unref on a connection that is still allocated and whose
  trace holds no free so far; and unref frees the input stream, the output stream and the
  storage exactly when its decrement reaches zero: with a count above 1 the connection
  stays allocated, with the count lowered by one.
\<close>

theorem free_only_when_unref_reaches_zero:
  assumes "w_conns w c = Some cn" and "1 \<le> c_refcount cn"
  shows "(\<exists>w'. auth_client_connection_unref w c = Inr w' \<and>
            (w_conns w' c = None \<longleftrightarrow> c_refcount cn = 1) \<and>
            new_events w w' = (if c_refcount cn = 1 then free_events c else []) \<and>
            (1 < c_refcount cn \<longrightarrow>
               w_conns w' c = Some (cn\<lparr>c_refcount := c_refcount cn - 1\<rparr>))) \<and>
         (c_fd cn \<noteq> - 1 \<and> refs_ok cn \<longrightarrow>
            (\<exists>w5 cn5. auth_client_connection_destroy E w c = auth_client_connection_unref w5 c \<and>
               w_conns w5 c = Some cn5 \<and> c_refcount cn5 = refs_after_destroy E cn + 1 \<and>
               set (free_events c) \<inter> set (new_events w w5) = {}) \<and>
            (\<exists>w'. auth_client_connection_destroy E w c = Inr w' \<and>
               (w_conns w' c = None \<longleftrightarrow> refs_after_destroy E cn = 0) \<and>
               new_events w w' =
                 close_events c cn @ (if refs_after_destroy E cn = 0 then free_events c else [])))"
proof (intro conjI impI)
  show "\<exists>w'. auth_client_connection_unref w c = Inr w' \<and>
            (w_conns w' c = None \<longleftrightarrow> c_refcount cn = 1) \<and>
            new_events w w' = (if c_refcount cn = 1 then free_events c else []) \<and>
            (1 < c_refcount cn \<longrightarrow>
               w_conns w' c = Some (cn\<lparr>c_refcount := c_refcount cn - 1\<rparr>))"
    using assms
    by (auto simp: auth_client_connection_unref_def set_conn_def log_ev_def new_events_def
        free_events_def)
next
  assume live: "c_fd cn \<noteq> - 1 \<and> refs_ok cn"
  have "set (free_events c) \<inter> set (close_events c cn) = {}"
    by (auto simp: free_events_def close_events_def split: option.splits)
  then show "\<exists>w5 cn5. auth_client_connection_destroy E w c = auth_client_connection_unref w5 c \<and>
               w_conns w5 c = Some cn5 \<and> c_refcount cn5 = refs_after_destroy E cn + 1 \<and>
               set (free_events c) \<inter> set (new_events w w5) = {}"
    using destroy_as_unref[OF assms(1), of E] live
    by (intro exI[of _ "released E w c cn"]) (simp add: released_def)
next
  assume live: "c_fd cn \<noteq> - 1 \<and> refs_ok cn"
  then have "auth_client_connection_destroy E w c = Inr (destroyed E w c cn)"
    using destroy_live[OF assms(1)] by simp
  moreover have "0 \<le> refs_after_destroy E cn"
    using live refs_after_destroy_nonneg by simp
  ultimately show "\<exists>w'. auth_client_connection_destroy E w c = Inr w' \<and>
               (w_conns w' c = None \<longleftrightarrow> refs_after_destroy E cn = 0) \<and>
               new_events w w' =
                 close_events c cn @ (if refs_after_destroy E cn = 0 then free_events c else [])"
    by (auto simp: destroyed_def)
qed

lemmas ex_defs = ex_world_def ex_conn_def ex_env_def ex_listener_def ex_istream_def
  ex_ostream_def

theorem free_only_when_unref_reaches_zero_witness:
  "w_conns ex_world 10 = Some ex_conn \<and> 1 \<le> c_refcount ex_conn \<and> c_fd ex_conn \<noteq> - 1 \<and>
   refs_ok ex_conn \<and>
   (\<exists>w'. auth_client_connection_unref ex_world 10 = Inr w' \<and>
      w_conns w' 10 = Some (ex_conn\<lparr>c_refcount := 1\<rparr>) \<and> new_events ex_world w' = []) \<and>
   (\<exists>w'. auth_client_connection_destroy ex_env ex_world 10 = Inr w' \<and>
      w_conns w' 10 = None \<and>
      new_events ex_world w' =
        [EvIStreamClose 10, EvOStreamClose 10, EvIoRemove 10, EvNetDisconnect 7,
         EvHandlerUnref 0, EvIStreamUnref 10, EvOStreamUnref 10, EvFree 10])"
proof -
  have h: "w_conns ex_world 10 = Some ex_conn" "1 \<le> c_refcount ex_conn"
    "c_fd ex_conn \<noteq> - 1" "refs_ok ex_conn"
    by (simp_all add: ex_defs refs_ok_def)
  have r: "refs_after_destroy ex_env ex_conn = 0" "c_refcount ex_conn = 2"
    by (simp_all add: refs_after_destroy_def ex_defs)
  show ?thesis
    using free_only_when_unref_reaches_zero[OF h(1,2), of ex_env] h r
    by (auto simp: close_events_def free_events_def ex_conn_def)
qed

text \<open>
  C3: destroy on a connection whose socket is marked closed returns the world unchanged.
  A first call deletes the connection from its listener's client array, closes the input
  and the output stream, removes the read subscription exactly when there is one,
  disconnects the socket and marks it closed, and releases the engine exactly when one is
  bound; a second call afterwards changes nothing.
\<close>

theorem destroy_idempotent_and_synchronous:
  assumes "w_conns w c = Some cn"
  shows "(c_fd cn = - 1 \<longrightarrow> auth_client_connection_destroy E w c = Inr w) \<and>
         (c_fd cn \<noteq> - 1 \<and> refs_ok cn \<longrightarrow>
            (\<exists>w'. auth_client_connection_destroy E w c = Inr w' \<and>
               l_clients (w_listeners w' (c_listener cn)) =
                 remove1 c (l_clients (w_listeners w (c_listener cn))) \<and>
               (distinct (l_clients (w_listeners w (c_listener cn))) \<longrightarrow>
                  c \<notin> set (l_clients (w_listeners w' (c_listener cn)))) \<and>
               take (length (close_events c cn)) (new_events w w') = close_events c cn \<and>
               (\<forall>h. EvHandlerUnref h \<in> set (new_events w w') \<longleftrightarrow> c_request_handler cn = Some h) \<and>
               (EvIoRemove c \<in> set (new_events w w') \<longleftrightarrow> c_io cn) \<and>
               (\<forall>cn'. w_conns w' c = Some cn' \<longrightarrow>
                  c_fd cn' = - 1 \<and> \<not> c_io cn' \<and> is_closed (c_input cn') \<and>
                  os_closed (c_output cn') \<and>
                  auth_client_connection_destroy E w' c = Inr w')))"
proof (intro conjI impI)
  assume "c_fd cn = - 1"
  then show "auth_client_connection_destroy E w c = Inr w"
    using assms by (rule destroy_closed[rotated])
next
  assume live: "c_fd cn \<noteq> - 1 \<and> refs_ok cn"
  then have d: "auth_client_connection_destroy E w c = Inr (destroyed E w c cn)"
    using destroy_live[OF assms] by simp
  have again: "auth_client_connection_destroy E (destroyed E w c cn) c = Inr (destroyed E w c cn)"
    if "w_conns (destroyed E w c cn) c = Some cn'" for cn'
    using that by (auto simp: destroyed_def closed_conn_def split: if_splits
        intro!: destroy_closed)
  show "\<exists>w'. auth_client_connection_destroy E w c = Inr w' \<and>
               l_clients (w_listeners w' (c_listener cn)) =
                 remove1 c (l_clients (w_listeners w (c_listener cn))) \<and>
               (distinct (l_clients (w_listeners w (c_listener cn))) \<longrightarrow>
                  c \<notin> set (l_clients (w_listeners w' (c_listener cn)))) \<and>
               take (length (close_events c cn)) (new_events w w') = close_events c cn \<and>
               (\<forall>h. EvHandlerUnref h \<in> set (new_events w w') \<longleftrightarrow> c_request_handler cn = Some h) \<and>
               (EvIoRemove c \<in> set (new_events w w') \<longleftrightarrow> c_io cn) \<and>
               (\<forall>cn'. w_conns w' c = Some cn' \<longrightarrow>
                  c_fd cn' = - 1 \<and> \<not> c_io cn' \<and> is_closed (c_input cn') \<and>
                  os_closed (c_output cn') \<and>
                  auth_client_connection_destroy E w' c = Inr w')"
  proof (intro exI[of _ "destroyed E w c cn"] conjI allI impI)
    show "auth_client_connection_destroy E w c = Inr (destroyed E w c cn)" by (rule d)
  qed (use again in \<open>auto simp: destroyed_def closed_conn_def close_events_def free_events_def
        i_stream_close_def o_stream_close_def split: option.splits if_splits\<close>)
qed

theorem destroy_idempotent_and_synchronous_witness:
  "w_conns ex_world 10 = Some (ex_conn) \<and> c_fd ex_conn \<noteq> - 1 \<and> refs_ok ex_conn \<and>
   distinct (l_clients (w_listeners ex_world (c_listener ex_conn))) \<and>
   (\<exists>w'. auth_client_connection_destroy (ex_env\<lparr>eng_release_sync := (\<lambda>h. False)\<rparr>) ex_world 10 = Inr w' \<and>
      l_clients (w_listeners w' 0) = [] \<and>
      new_events ex_world w' =
        [EvIStreamClose 10, EvOStreamClose 10, EvIoRemove 10, EvNetDisconnect 7,
         EvHandlerUnref 0] \<and>
      w_conns w' 10 = Some ((closed_conn ex_conn)\<lparr>c_refcount := 1\<rparr>) \<and>
      auth_client_connection_destroy (ex_env\<lparr>eng_release_sync := (\<lambda>h. False)\<rparr>) w' 10 = Inr w')"
proof -
  have h: "w_conns ex_world 10 = Some ex_conn" "c_fd ex_conn \<noteq> - 1" "refs_ok ex_conn"
    "distinct (l_clients (w_listeners ex_world (c_listener ex_conn)))"
    by (simp_all add: ex_defs refs_ok_def)
  have d: "auth_client_connection_destroy (ex_env\<lparr>eng_release_sync := (\<lambda>h. False)\<rparr>) ex_world 10
    = Inr (destroyed (ex_env\<lparr>eng_release_sync := (\<lambda>h. False)\<rparr>) ex_world 10 ex_conn)"
    using destroy_live[OF h(1,2,3)] by simp
  have r: "refs_after_destroy (ex_env\<lparr>eng_release_sync := (\<lambda>h. False)\<rparr>) ex_conn = 1"
    by (simp add: refs_after_destroy_def ex_defs)
  show ?thesis
    using destroy_idempotent_and_synchronous[OF h(1), of "ex_env\<lparr>eng_release_sync := (\<lambda>h. False)\<rparr>"] h
    unfolding d
    by (simp add: destroyed_def r close_events_def) (simp add: ex_defs)
qed

section \<open>Backpressure thresholds\<close>

text \<open>
  C5: after a reply is written, an unsent byte count of at least 50 KiB leaves the
  connection without a read subscription (the subscription is removed exactly when there
  was one), and a smaller count leaves the subscription as it was. When a flush does not
  fail, an unsent byte count of at most 50 KiB div 3 = 17066 with no read subscription
  adds one; otherwise none is added.
\<close>

theorem backpressure_thresholds:
  assumes "w_conns w c = Some cn"
  shows "(1 < c_refcount cn \<longrightarrow>
            (\<exists>w' cn'. auth_client_send w c reply = Inr w' \<and> w_conns w' c = Some cn' \<and>
               c_output cn' = snd (o_stream_send (c_output cn) (c_str reply @ [CHR 0x0A])) \<and>
               (OUTBUF_THROTTLE_SIZE \<le> o_stream_get_buffer_used_size (c_output cn') \<longrightarrow>
                  \<not> c_io cn' \<and> (EvIoRemove c \<in> set (new_events w w') \<longleftrightarrow> c_io cn)) \<and>
               (o_stream_get_buffer_used_size (c_output cn') < OUTBUF_THROTTLE_SIZE \<longrightarrow>
                  c_io cn' = c_io cn \<and> EvIoRemove c \<notin> set (new_events w w')))) \<and>
         (0 \<le> fst (o_stream_flush (c_output cn)) \<longrightarrow>
            (\<exists>w' cn'. auth_client_output E w c = Inr w' \<and> w_conns w' c = Some cn' \<and>
               c_output cn' = snd (o_stream_flush (c_output cn)) \<and>
               (o_stream_get_buffer_used_size (c_output cn') \<le> OUTBUF_THROTTLE_SIZE div 3 \<and>
                \<not> c_io cn \<longrightarrow>
                  c_io cn' \<and> EvIoAdd c (c_fd cn) \<in> set (new_events w w')) \<and>
               (\<not> (o_stream_get_buffer_used_size (c_output cn') \<le> OUTBUF_THROTTLE_SIZE div 3 \<and>
                   \<not> c_io cn) \<longrightarrow>
                  c_io cn' = c_io cn \<and> EvIoAdd c (c_fd cn) \<notin> set (new_events w w')))) \<and>
         OUTBUF_THROTTLE_SIZE = 51200 \<and> OUTBUF_THROTTLE_SIZE div 3 = 17066"
proof (intro conjI impI)
  assume "1 < c_refcount cn"
  then show "\<exists>w' cn'. auth_client_send w c reply = Inr w' \<and> w_conns w' c = Some cn' \<and>
               c_output cn' = snd (o_stream_send (c_output cn) (c_str reply @ [CHR 0x0A])) \<and>
               (OUTBUF_THROTTLE_SIZE \<le> o_stream_get_buffer_used_size (c_output cn') \<longrightarrow>
                  \<not> c_io cn' \<and> (EvIoRemove c \<in> set (new_events w w') \<longleftrightarrow> c_io cn)) \<and>
               (o_stream_get_buffer_used_size (c_output cn') < OUTBUF_THROTTLE_SIZE \<longrightarrow>
                  c_io cn' = c_io cn \<and> EvIoRemove c \<notin> set (new_events w w'))"
    using assms
    by (auto simp: auth_client_send_def Let_def set_conn_def log_ev_def new_events_def)
next
  assume "0 \<le> fst (o_stream_flush (c_output cn))"
  then show "\<exists>w' cn'. auth_client_output E w c = Inr w' \<and> w_conns w' c = Some cn' \<and>
               c_output cn' = snd (o_stream_flush (c_output cn)) \<and>
               (o_stream_get_buffer_used_size (c_output cn') \<le> OUTBUF_THROTTLE_SIZE div 3 \<and>
                \<not> c_io cn \<longrightarrow>
                  c_io cn' \<and> EvIoAdd c (c_fd cn) \<in> set (new_events w w')) \<and>
               (\<not> (o_stream_get_buffer_used_size (c_output cn') \<le> OUTBUF_THROTTLE_SIZE div 3 \<and>
                   \<not> c_io cn) \<longrightarrow>
                  c_io cn' = c_io cn \<and> EvIoAdd c (c_fd cn) \<notin> set (new_events w w'))"
    using assms
    by (auto simp: auth_client_output_def Let_def set_conn_def log_ev_def new_events_def)
qed (simp_all add: OUTBUF_THROTTLE_SIZE_def)

theorem backpressure_thresholds_witness:
  "w_conns (set_conn 10 ex_slow_conn ex_world) 10 = Some ex_slow_conn \<and>
   1 < c_refcount ex_slow_conn \<and>
   (\<exists>w' cn'. auth_client_send (set_conn 10 ex_slow_conn ex_world) 10 ''OK'' = Inr w' \<and>
      w_conns w' 10 = Some cn' \<and> o_stream_get_buffer_used_size (c_output cn') = 51201 \<and>
      c_io ex_slow_conn \<and> \<not> c_io cn' \<and>
      EvIoRemove 10 \<in> set (new_events (set_conn 10 ex_slow_conn ex_world) w')) \<and>
   w_conns (set_conn 10 ex_draining_conn ex_world) 10 = Some ex_draining_conn \<and>
   0 \<le> fst (o_stream_flush (c_output ex_draining_conn)) \<and>
   (\<exists>w' cn'. auth_client_output ex_env (set_conn 10 ex_draining_conn ex_world) 10 = Inr w' \<and>
      w_conns w' 10 = Some cn' \<and> o_stream_get_buffer_used_size (c_output cn') = 15000 \<and>
      \<not> c_io ex_draining_conn \<and> c_io cn' \<and>
      EvIoAdd 10 7 \<in> set (new_events (set_conn 10 ex_draining_conn ex_world) w'))"
proof -
  have h: "w_conns (set_conn 10 ex_slow_conn ex_world) 10 = Some ex_slow_conn"
    "1 < c_refcount ex_slow_conn" "c_io ex_slow_conn"
    by (simp_all add: set_conn_def ex_slow_conn_def ex_conn_def)
  have u: "o_stream_get_buffer_used_size
             (snd (o_stream_send (c_output ex_slow_conn) (c_str ''OK'' @ [CHR 0x0A]))) = 51201"
    by (simp add: o_stream_get_buffer_used_size_def o_stream_send_def ex_slow_conn_def
        ex_ostream_def c_str_def)
  have g: "w_conns (set_conn 10 ex_draining_conn ex_world) 10 = Some ex_draining_conn"
    "\<not> c_io ex_draining_conn" "c_fd ex_draining_conn = 7"
    by (simp_all add: set_conn_def ex_draining_conn_def ex_conn_def)
  have f: "fst (o_stream_flush (c_output ex_draining_conn)) = 0"
    "o_stream_get_buffer_used_size (snd (o_stream_flush (c_output ex_draining_conn))) = 15000"
    by (simp_all add: o_stream_get_buffer_used_size_def o_stream_flush_def ex_draining_conn_def
        ex_ostream_def)
  have send: "\<exists>w' cn'. auth_client_send (set_conn 10 ex_slow_conn ex_world) 10 ''OK'' = Inr w' \<and>
      w_conns w' 10 = Some cn' \<and> o_stream_get_buffer_used_size (c_output cn') = 51201 \<and>
      c_io ex_slow_conn \<and> \<not> c_io cn' \<and>
      EvIoRemove 10 \<in> set (new_events (set_conn 10 ex_slow_conn ex_world) w')"
    using backpressure_thresholds[OF h(1), of "''OK''" ex_env] h u
    by (auto simp: OUTBUF_THROTTLE_SIZE_def)
  have flush: "\<exists>w' cn'. auth_client_output ex_env (set_conn 10 ex_draining_conn ex_world) 10 = Inr w' \<and>
      w_conns w' 10 = Some cn' \<and> o_stream_get_buffer_used_size (c_output cn') = 15000 \<and>
      \<not> c_io ex_draining_conn \<and> c_io cn' \<and>
      EvIoAdd 10 7 \<in> set (new_events (set_conn 10 ex_draining_conn ex_world) w')"
    using backpressure_thresholds[OF g(1), of "''OK''" ex_env] g f
    by (auto simp: OUTBUF_THROTTLE_SIZE_def)
  show ?thesis using h g f send flush by simp
qed

section \<open>The timeout sweep: every bound engine, in bounds\<close>

lemma checked_append: "checked (xs @ ys) = checked xs @ checked ys"
  by (induction xs rule: checked.induct) auto

lemma same_shape_refl: "same_shape w w"
  by (simp add: same_shape_def new_events_def)

lemma new_events_trans:
  "w_trace w1 = w_trace w @ new_events w w1 \<Longrightarrow> w_trace w2 = w_trace w1 @ new_events w1 w2 \<Longrightarrow>
   new_events w w2 = new_events w w1 @ new_events w1 w2"
  by (metis append_eq_conv_conj new_events_def append.assoc)

lemma same_shape_trans:
  "same_shape w w1 \<Longrightarrow> same_shape w1 w2 \<Longrightarrow> same_shape w w2"
  unfolding same_shape_def
  using new_events_trans[of w1 w w2]
  by (metis append.assoc)

lemma same_shape_log_ev: "same_shape w (log_ev evs w)"
  by (simp add: same_shape_def log_ev_def new_events_def)

lemma new_events_log_ev [simp]: "new_events w (log_ev evs w) = evs"
  by (simp add: log_ev_def new_events_def)

lemma send_same_shape:
  assumes "w_conns w a = Some cn" and "1 < c_refcount cn"
  shows "\<exists>w'. auth_client_send w a s = Inr w' \<and> same_shape w w' \<and> checked (new_events w w') = []"
  using assms
  by (auto simp: auth_client_send_def Let_def same_shape_def set_conn_def log_ev_def
      new_events_def)

lemma replies_only_same_shape:
  "same_shape w w' \<Longrightarrow> replies_only w rs \<Longrightarrow> replies_only w' rs"
proof (induction w rs rule: replies_only.induct)
  case (2 w a s rs)
  from "2.prems"(1) have
    "map_option (\<lambda>cn. (c_request_handler cn, c_refcount cn)) (w_conns w' a) =
     map_option (\<lambda>cn. (c_request_handler cn, c_refcount cn)) (w_conns w a)"
    by (simp add: same_shape_def)
  with 2 show ?case by (auto split: option.splits)
qed auto

lemma same_shape_events:
  "same_shape w w1 \<Longrightarrow> same_shape w1 w2 \<Longrightarrow>
   new_events w w2 = new_events w w1 @ new_events w1 w2"
  by (simp add: same_shape_def new_events_trans)

lemma run_replies_same_shape:
  "replies_only w rs \<Longrightarrow>
   \<exists>w'. run_reentries E w rs = Inr w' \<and> same_shape w w' \<and> checked (new_events w w') = []"
proof (induction rs arbitrary: w)
  case Nil
  then show ?case by (simp add: same_shape_refl new_events_def)
next
  case (Cons r rs)
  then obtain a s where r: "r = CbReply a s" by (cases r) auto
  with Cons.prems obtain cn where cn: "w_conns w a = Some cn" "1 < c_refcount cn"
    and rs: "replies_only w rs"
    by (auto split: option.splits)
  from send_same_shape[OF cn, of s] obtain w1 where
    w1: "auth_client_send w a s = Inr w1" "same_shape w w1" "checked (new_events w w1) = []"
    by blast
  have "replies_only w1 rs" using replies_only_same_shape[OF w1(2) rs] .
  from Cons.IH[OF this] obtain w2 where
    w2: "run_reentries E w1 rs = Inr w2" "same_shape w1 w2" "checked (new_events w1 w2) = []"
    by blast
  have "run_reentries E w (r # rs) = Inr w2"
    using w1(1) w2(1) r by (simp add: run_reentry_def auth_callback_def)
  moreover have "same_shape w w2" using same_shape_trans[OF w1(2) w2(2)] .
  moreover have "checked (new_events w w2) = []"
    using same_shape_events[OF w1(2) w2(2)] w1(3) w2(3) by (simp add: checked_append)
  ultimately show ?case by blast
qed

lemma check_timeouts_same_shape:
  assumes "replies_only w (eng_check_timeouts E h)"
  shows "\<exists>w'. auth_request_handler_check_timeouts E w h = Inr w' \<and> same_shape w w' \<and>
              checked (new_events w w') = [h]"
proof -
  have "replies_only (log_ev [EvCheckTimeouts h] w) (eng_check_timeouts E h)"
    using replies_only_same_shape[OF same_shape_log_ev assms] .
  from run_replies_same_shape[OF this, of E] obtain w' where
    w': "run_reentries E (log_ev [EvCheckTimeouts h] w) (eng_check_timeouts E h) = Inr w'"
      "same_shape (log_ev [EvCheckTimeouts h] w) w'"
      "checked (new_events (log_ev [EvCheckTimeouts h] w) w') = []"
    by blast
  have "same_shape w w'" using same_shape_trans[OF same_shape_log_ev w'(2)] .
  moreover have "checked (new_events w w') = [h]"
    using same_shape_events[OF same_shape_log_ev w'(2)] w'(3) by (simp add: checked_append)
  ultimately show ?thesis
    using w'(1) by (simp add: auth_request_handler_check_timeouts_def)
qed

lemma sweep_ok_same_shape: "same_shape w w' \<Longrightarrow> sweep_ok E w l \<Longrightarrow> sweep_ok E w' l"
  unfolding sweep_ok_def
proof (intro ballI)
  fix a
  assume ss: "same_shape w w'"
    and ok: "\<forall>a\<in>set (l_clients (w_listeners w l)).
               case w_conns w a of None \<Rightarrow> False
               | Some cn \<Rightarrow> (case c_request_handler cn of None \<Rightarrow> True
                             | Some h \<Rightarrow> replies_only w (eng_check_timeouts E h))"
    and a: "a \<in> set (l_clients (w_listeners w' l))"
  from ss have l: "w_listeners w' = w_listeners w"
    and m: "map_option (\<lambda>cn. (c_request_handler cn, c_refcount cn)) (w_conns w' a) =
            map_option (\<lambda>cn. (c_request_handler cn, c_refcount cn)) (w_conns w a)"
    by (simp_all add: same_shape_def)
  from a l ok have "case w_conns w a of None \<Rightarrow> False
      | Some cn \<Rightarrow> (case c_request_handler cn of None \<Rightarrow> True
                    | Some h \<Rightarrow> replies_only w (eng_check_timeouts E h))"
    by simp
  with m show "case w_conns w' a of None \<Rightarrow> False
      | Some cn \<Rightarrow> (case c_request_handler cn of None \<Rightarrow> True
                    | Some h \<Rightarrow> replies_only w' (eng_check_timeouts E h))"
    using replies_only_same_shape[OF ss]
    by (auto split: option.splits)
qed

lemma bound_handlers_same_shape:
  "same_shape w w' \<Longrightarrow> bound_handlers w' as = bound_handlers w as"
proof (induction as)
  case Nil
  then show ?case by simp
next
  case (Cons a as)
  from Cons.prems have
    "map_option (\<lambda>cn. (c_request_handler cn, c_refcount cn)) (w_conns w' a) =
     map_option (\<lambda>cn. (c_request_handler cn, c_refcount cn)) (w_conns w a)"
    by (simp add: same_shape_def)
  with Cons show ?case
    by (cases "w_conns w a"; cases "w_conns w' a") (auto split: option.splits)
qed

lemma sweep_loop:
  assumes "sweep_ok E w l" and "count = length (l_clients (w_listeners w l))"
  shows "\<exists>w'. request_timeout_loop E l count i w = Inr w' \<and> same_shape w w' \<and>
           checked (new_events w w') = bound_handlers w (drop i (l_clients (w_listeners w l)))"
  using assms
proof (induction "count - i" arbitrary: i w)
  case 0
  then have "\<not> i < count" by simp
  with 0 show ?case
    by (simp add: same_shape_refl new_events_def)
next
  case (Suc n)
  let ?cl = "l_clients (w_listeners w l)"
  from Suc.hyps(2) have lt: "i < count" by simp
  with Suc.prems have il: "i < length ?cl" by simp
  then have mem: "?cl ! i \<in> set ?cl" by simp
  with Suc.prems(1) obtain cn where cn: "w_conns w (?cl ! i) = Some cn"
    by (auto simp: sweep_ok_def split: option.splits)
  have dr: "drop i ?cl = ?cl ! i # drop (Suc i) ?cl"
    using il by (simp add: Cons_nth_drop_Suc)
  have n: "n = count - Suc i" using Suc.hyps(2) by simp
  show ?case
  proof (cases "c_request_handler cn")
    case None
    from Suc.hyps(1)[OF n Suc.prems] obtain w' where
      w': "request_timeout_loop E l count (Suc i) w = Inr w'" "same_shape w w'"
        "checked (new_events w w') = bound_handlers w (drop (Suc i) ?cl)"
      by blast
    then show ?thesis
      using lt il cn None dr
      by (subst request_timeout_loop.simps) simp
  next
    case (Some h)
    with mem cn Suc.prems(1) have "replies_only w (eng_check_timeouts E h)"
      by (auto simp: sweep_ok_def split: option.splits)
    from check_timeouts_same_shape[OF this] obtain w1 where
      w1: "auth_request_handler_check_timeouts E w h = Inr w1" "same_shape w w1"
        "checked (new_events w w1) = [h]"
      by blast
    have ok1: "sweep_ok E w1 l" using sweep_ok_same_shape[OF w1(2) Suc.prems(1)] .
    have l1: "w_listeners w1 = w_listeners w" using w1(2) by (simp add: same_shape_def)
    then have c1: "count = length (l_clients (w_listeners w1 l))" using Suc.prems(2) by simp
    from Suc.hyps(1)[OF n ok1 c1] obtain w' where
      w': "request_timeout_loop E l count (Suc i) w1 = Inr w'" "same_shape w1 w'"
        "checked (new_events w1 w') = bound_handlers w1 (drop (Suc i) (l_clients (w_listeners w1 l)))"
      by blast
    have "request_timeout_loop E l count i w = Inr w'"
      using lt il cn Some w1(1) w'(1)
      by (subst request_timeout_loop.simps) simp
    moreover have "same_shape w w'" using same_shape_trans[OF w1(2) w'(2)] .
    moreover have "checked (new_events w w') = bound_handlers w (drop i ?cl)"
      using same_shape_events[OF w1(2) w'(2)] w1(3) w'(3) l1 dr cn Some
        bound_handlers_same_shape[OF w1(2)]
      by (simp add: checked_append)
    ultimately show ?thesis by blast
  qed
qed

lemma count_bound_handlers:
  "count_list (bound_handlers w as) h = length (filter (\<lambda>a. handler_of w a = Some h) as)"
  by (induction as) (auto simp: handler_of_def split: option.splits)

text \<open>
  C8 as stated fails: a firing need not reach every bound engine. With the timer
  registered and the client array \<open>[12, 10, 11]\<close>, the timeout check of handler 2 (bound
  to connection 12) destroys that connection; the array is then \<open>[10, 11]\<close>, the sweep
  goes on at slot 1 and reads slot 2 of an array of two. Handler 2 is the only handler
  checked, although handler 0 is bound to connection 10, registered before and after.
\<close>

theorem timer_skips_bound_engine_counterexample:
  "l_to_clients (w_listeners ex_world3 0) \<noteq> None \<and>
   10 \<in> set (l_clients (w_listeners ex_world3 0)) \<and> handler_of ex_world3 10 = Some 0 \<and>
   (\<exists>w1. auth_request_handler_check_timeouts ex_destroying_env ex_world3 2 = Inr w1 \<and>
      checked (new_events ex_world3 w1) = [2] \<and>
      l_clients (w_listeners w1 0) = [10, 11] \<and> handler_of w1 10 = Some 0 \<and>
      request_timeout_loop ex_destroying_env 0 3 1 w1 = Inl (OutOfBounds 2)) \<and>
   timer_fire ex_destroying_env ex_world3 0 = Inl (OutOfBounds 2)"
  by (simp add: timer_fire_def request_timeout_def handler_of_def new_events_def
      ex_world3_def ex_defs ex_other_conn_def
      ex_handshaking_conn_def ex_destroying_env_def
      auth_request_handler_check_timeouts_def run_reentry_def log_ev_def
      auth_client_connection_destroy_def clients_delete_def set_conn_def Let_def
      i_stream_close_def o_stream_close_def auth_request_handler_unref_def bindF_def
      auth_callback_def auth_client_connection_unref_def)

text \<open>
  C8, amended: the listener's timer is registered with a period of 5000 ms. When it fires,
  and the timeout checks call back with replies only or not at all (so that none removes
  a connection from the client array or frees one during the sweep), the handlers whose
  timeout check is called are exactly the handlers bound to the connections of the client
  array, in the array's order: each handler is checked once for each registered
  connection it is bound to, whatever the order of the array, and a connection without a
  handler adds no call.
\<close>

theorem timer_checks_every_bound_engine_once:
  assumes "sweep_ok E w l" and "l_to_clients (w_listeners w l) \<noteq> None"
  shows "l_to_clients (w_listeners (auth_client_connections_init w0 l) l) = Some 5000 \<and>
         (\<exists>w'. timer_fire E w l = Inr w' \<and>
            checked (new_events w w') = bound_handlers w (l_clients (w_listeners w l)) \<and>
            (\<forall>h. count_list (checked (new_events w w')) h =
                 length (filter (\<lambda>a. handler_of w a = Some h) (l_clients (w_listeners w l)))))"
proof -
  from sweep_loop[OF assms(1) refl, of 0] obtain w' where
    w': "request_timeout_loop E l (length (l_clients (w_listeners w l))) 0 w = Inr w'"
      "checked (new_events w w') = bound_handlers w (l_clients (w_listeners w l))"
    by auto
  have "timer_fire E w l = Inr w'"
    using assms(2) w'(1) by (auto simp: timer_fire_def request_timeout_def)
  then show ?thesis
    using w'(2) by (simp add: count_bound_handlers auth_client_connections_init_def log_ev_def)
qed

theorem timer_checks_every_bound_engine_once_witness:
  "sweep_ok ex_env ex_world3 0 \<and> l_to_clients (w_listeners ex_world3 0) \<noteq> None \<and>
   (\<exists>w'. timer_fire ex_env ex_world3 0 = Inr w' \<and> checked (new_events ex_world3 w') = [2, 0] \<and>
      count_list (checked (new_events ex_world3 w')) 0 = 1 \<and>
      count_list (checked (new_events ex_world3 w')) 2 = 1)"
proof -
  have h: "sweep_ok ex_env ex_world3 0" "l_to_clients (w_listeners ex_world3 0) \<noteq> None"
    by (simp_all add: sweep_ok_def ex_world3_def ex_defs ex_other_conn_def
        ex_handshaking_conn_def)
  have b: "bound_handlers ex_world3 (l_clients (w_listeners ex_world3 0)) = [2, 0]"
    by (simp add: ex_world3_def ex_defs ex_other_conn_def ex_handshaking_conn_def)
  show ?thesis
    using timer_checks_every_bound_engine_once[OF h, of ex_world] h b
    by auto
qed




section \<open>The handshake: version and client pid\<close>

lemma world_fields [simp]:
  "w_conns (log_ev evs w) = w_conns w"
  "w_listeners (log_ev evs w) = w_listeners w"
  "w_trace (log_ev evs w) = w_trace w @ evs"
  "w_next_handler (log_ev evs w) = w_next_handler w"
  "w_conns (set_conn c cn w) = (w_conns w)(c \<mapsto> cn)"
  "w_listeners (set_conn c cn w) = w_listeners w"
  "w_trace (set_conn c cn w) = w_trace w"
  "w_next_handler (set_conn c cn w) = w_next_handler w"
  by (simp_all add: log_ev_def set_conn_def)

lemma next_line_Cons:
  "is_lines s = line # rest \<Longrightarrow> i_stream_next_line s = Some (line, advanced s)"
  by (simp add: i_stream_next_line_def advanced_def)

lemma new_events_destroyed:
  "new_events w (destroyed E w c cn) =
     close_events c cn @ (if 0 < refs_after_destroy E cn then [] else free_events c)"
  by (simp add: destroyed_def new_events_def)

lemma handshake_version_mismatch:
  assumes "w_conns w c = Some cn" and "c_request_handler cn = None"
    and "is_lines (c_input cn) = line # rest" and "\<not> c_version_received cn"
    and "version_mismatch E line" and "c_fd cn \<noteq> - 1" and "1 \<le> c_refcount cn"
  shows "handshake_loop E w c =
           Inr (False, destroyed E
             (log_ev [EvError
                ''Authentication client not compatible with this server (mixed old and new binaries?)''
                []] (set_conn c (cn\<lparr>c_input := advanced (c_input cn)\<rparr>) w))
             c (cn\<lparr>c_input := advanced (c_input cn)\<rparr>))"
proof -
  have "refs_ok (cn\<lparr>c_input := advanced (c_input cn)\<rparr>)"
    using assms by (simp add: refs_ok_def)
  then have "auth_client_connection_destroy E
       (log_ev [EvError
          ''Authentication client not compatible with this server (mixed old and new binaries?)''
          []] (set_conn c (cn\<lparr>c_input := advanced (c_input cn)\<rparr>) w)) c =
     Inr (destroyed E
       (log_ev [EvError
          ''Authentication client not compatible with this server (mixed old and new binaries?)''
          []] (set_conn c (cn\<lparr>c_input := advanced (c_input cn)\<rparr>) w))
       c (cn\<lparr>c_input := advanced (c_input cn)\<rparr>))"
    using assms by (intro destroy_live) simp_all
  then show ?thesis
    using assms by (subst handshake_loop.simps) (simp add: next_line_Cons)
qed

lemma handshake_version_match:
  assumes "w_conns w c = Some cn" and "c_request_handler cn = None"
    and "is_lines (c_input cn) = line # rest" and "\<not> c_version_received cn"
    and "\<not> version_mismatch E line"
  shows "handshake_loop E w c =
           handshake_loop E
             (set_conn c (cn\<lparr>c_input := advanced (c_input cn), c_version_received := True\<rparr>) w) c"
  using assms by (subst handshake_loop.simps) (simp add: next_line_Cons)

lemma handshake_no_line:
  assumes "w_conns w c = Some cn" and "c_request_handler cn = None"
    and "is_lines (c_input cn) = []"
  shows "handshake_loop E w c = Inr (False, w)"
  using assms by (subst handshake_loop.simps) (simp add: i_stream_next_line_def)

lemma handshake_cpid_line:
  assumes "w_conns w c = Some cn" and "c_request_handler cn = None"
    and "is_lines (c_input cn) = line # rest" and "c_version_received cn"
    and "strncmp_eq line (''CPID'' @ [CHR 0x09]) 5"
  shows "handshake_loop E w c =
     (case auth_client_input_cpid E (set_conn c (cn\<lparr>c_input := advanced (c_input cn)\<rparr>) w) c
             (drop 5 line) of
        Inl e \<Rightarrow> Inl e
      | Inr (ok, w2) \<Rightarrow>
          if \<not> ok
          then (case auth_client_connection_destroy E w2 c of
                  Inl e \<Rightarrow> Inl e
                | Inr w' \<Rightarrow> Inr (False, w'))
          else handshake_loop E w2 c)"
  using assms by (subst handshake_loop.simps) (simp add: next_line_Cons)

lemma handshake_bound:
  assumes "w_conns w c = Some cn" and "c_request_handler cn \<noteq> None"
  shows "handshake_loop E w c = Inr (True, w)"
  using assms by (subst handshake_loop.simps) simp

lemma handshake_zero_pid:
  assumes "w_conns w c = Some cn" and "c_request_handler cn = None"
    and "is_lines (c_input cn) = line # rest" and "c_version_received cn"
    and "strncmp_eq line (''CPID'' @ [CHR 0x09]) 5" and "strtoul_uint (drop 5 line) = 0"
    and "c_pid cn = 0" and "c_fd cn \<noteq> - 1" and "1 \<le> c_refcount cn"
  shows "handshake_loop E w c =
           Inr (False, destroyed E
             (log_ev [EvError ''BUG: Authentication client said it's PID 0'' []]
                (set_conn c (cn\<lparr>c_input := advanced (c_input cn)\<rparr>) w))
             c (cn\<lparr>c_input := advanced (c_input cn)\<rparr>))"
proof -
  let ?w1 = "set_conn c (cn\<lparr>c_input := advanced (c_input cn)\<rparr>) w"
  have cp: "auth_client_input_cpid E ?w1 c (drop 5 line) =
        Inr (False, log_ev [EvError ''BUG: Authentication client said it's PID 0'' []] ?w1)"
    using assms by (simp add: auth_client_input_cpid_def)
  have "refs_ok (cn\<lparr>c_input := advanced (c_input cn)\<rparr>)"
    using assms by (simp add: refs_ok_def)
  then have "auth_client_connection_destroy E
       (log_ev [EvError ''BUG: Authentication client said it's PID 0'' []] ?w1) c =
     Inr (destroyed E (log_ev [EvError ''BUG: Authentication client said it's PID 0'' []] ?w1)
       c (cn\<lparr>c_input := advanced (c_input cn)\<rparr>))"
    using assms by (intro destroy_live) simp_all
  then show ?thesis
    using handshake_cpid_line[OF assms(1-5), of E] cp by simp
qed

lemma input_enters_handshake:
  assumes "w_conns w c = Some cn" and "i_stream_read (c_input cn) = (r, inp)"
    and "r \<noteq> 0" and "r \<noteq> - 1" and "r \<noteq> - 2"
  shows "auth_client_input E w c =
     (case handshake_loop E (set_conn c (cn\<lparr>c_input := inp\<rparr>) (log_ev [EvIStreamRead c] w)) c of
        Inl e \<Rightarrow> Inl e
      | Inr (go_on, w2) \<Rightarrow>
          if \<not> go_on then Inr w2
          else
            case w_conns w2 c of
              None \<Rightarrow> Inl (UseAfterFree c)
            | Some cn2 \<Rightarrow>
                (case active_loop E
                        (set_conn c (cn2\<lparr>c_refcount := c_refcount cn2 + 1\<rparr>) w2) c of
                   Inl e \<Rightarrow> Inl e
                 | Inr w3 \<Rightarrow> auth_client_connection_unref w3 c))"
  using assms by (simp add: auth_client_input_def Let_def)

lemma t_strcut_field:
  assumes "CHR 0x09 \<notin> set f" and "CHR 0x00 \<notin> set f"
  shows "t_strcut (f @ CHR 0x09 # m) (CHR 0x09) = f" and "t_strcut f (CHR 0x09) = f"
proof -
  have a: "takeWhile (\<lambda>ch. ch \<noteq> CHR 0x00) (f @ CHR 0x09 # m) =
           f @ CHR 0x09 # takeWhile (\<lambda>ch. ch \<noteq> CHR 0x00) m"
    using assms(2) by (subst takeWhile_append2) auto
  have b: "takeWhile (\<lambda>ch. ch \<noteq> CHR 0x09) (f @ CHR 0x09 # m') = f" for m'
    using assms(1) by (subst takeWhile_append2) auto
  show "t_strcut (f @ CHR 0x09 # m) (CHR 0x09) = f"
    by (simp add: t_strcut_def c_str_def a b)
  have e0: "takeWhile (\<lambda>ch. ch \<noteq> CHR 0x00) f = f"
    using assms(2) by (induction f) auto
  have e9: "takeWhile (\<lambda>ch. ch \<noteq> CHR 0x09) f = f"
    using assms(1) by (induction f) auto
  show "t_strcut f (CHR 0x09) = f"
    by (simp only: t_strcut_def c_str_def e0 e9)
qed

lemma version_minor_ignored:
  assumes "CHR 0x09 \<notin> set f" and "CHR 0x00 \<notin> set f"
  shows "version_mismatch E (''VERSION'' @ [CHR 0x09] @ f @ CHR 0x09 # m) =
         (atoi f \<noteq> protocol_major E)"
  using t_strcut_field[OF assms]
  by (simp add: version_mismatch_def strncmp_eq_def c_str_def)

text \<open>
  C4: while no version line has been accepted, a line that is not \<open>VERSION\<close>, a tab and a
  field that \<open>atoi\<close> reads as the required major version destroys the connection at once:
  the read, the error and the closing steps are all that happens, no handler is created,
  and the rest of the input is left alone. A matching line sets \<open>version_received\<close> and
  nothing else (the line is consumed); whatever follows the second tab, the minor version,
  plays no part in the check.
\<close>

theorem version_line_check:
  assumes "w_conns w c = Some cn" and "c_request_handler cn = None"
    and "\<not> c_version_received cn" and "c_fd cn \<noteq> - 1" and "1 \<le> c_refcount cn"
    and "i_stream_read (c_input cn) = (r, inp)" and "r \<noteq> 0" and "r \<noteq> - 1" and "r \<noteq> - 2"
    and "is_lines inp = line # rest"
  shows "(version_mismatch E line \<longrightarrow>
            (\<exists>w'. auth_client_input E w c = Inr w' \<and>
               new_events w w' =
                 [EvIStreamRead c,
                  EvError ''Authentication client not compatible with this server (mixed old and new binaries?)'' []]
                 @ close_events c cn @ (if 1 < c_refcount cn then [] else free_events c) \<and>
               (\<forall>h a m. EvHandlerCreate h a m \<notin> set (new_events w w')) \<and>
               w_next_handler w' = w_next_handler w \<and>
               (w_conns w' c = None \<longleftrightarrow> c_refcount cn = 1) \<and>
               l_clients (w_listeners w' (c_listener cn)) =
                 remove1 c (l_clients (w_listeners w (c_listener cn))) \<and>
               (\<forall>cn'. w_conns w' c = Some cn' \<longrightarrow>
                  c_fd cn' = - 1 \<and> c_request_handler cn' = None \<and> \<not> c_version_received cn'))) \<and>
         (\<not> version_mismatch E line \<and> rest = [] \<longrightarrow>
            auth_client_input E w c =
              Inr (set_conn c (cn\<lparr>c_input := advanced inp, c_version_received := True\<rparr>)
                     (log_ev [EvIStreamRead c] w))) \<and>
         (\<forall>f m. CHR 0x09 \<notin> set f \<and> CHR 0x00 \<notin> set f \<longrightarrow>
            version_mismatch E (''VERSION'' @ [CHR 0x09] @ f @ CHR 0x09 # m) =
              (atoi f \<noteq> protocol_major E)) \<and>
         (\<forall>l. take 8 (c_str l) \<noteq> ''VERSION'' @ [CHR 0x09] \<longrightarrow> version_mismatch E l)"
proof (intro conjI impI allI)
  let ?w1 = "set_conn c (cn\<lparr>c_input := inp\<rparr>) (log_ev [EvIStreamRead c] w)"
  let ?cn1 = "cn\<lparr>c_input := inp\<rparr>"
  have c1: "w_conns ?w1 c = Some ?cn1" by simp
  {
    assume mm: "version_mismatch E line"
    have hl: "handshake_loop E ?w1 c =
           Inr (False, destroyed E
             (log_ev [EvError
                ''Authentication client not compatible with this server (mixed old and new binaries?)''
                []] (set_conn c (?cn1\<lparr>c_input := advanced (c_input ?cn1)\<rparr>) ?w1))
             c (?cn1\<lparr>c_input := advanced (c_input ?cn1)\<rparr>))"
      using assms mm by (intro handshake_version_mismatch[OF c1, where rest = rest]) simp_all
    have ra: "refs_after_destroy E (cn\<lparr>c_input := advanced inp\<rparr>) = c_refcount cn - 1"
      using assms(2) by (simp add: refs_after_destroy_def)
    have ce: "close_events c (cn\<lparr>c_input := advanced inp\<rparr>) = close_events c cn"
      by (simp add: close_events_def)
    show "\<exists>w'. auth_client_input E w c = Inr w' \<and>
               new_events w w' =
                 [EvIStreamRead c,
                  EvError ''Authentication client not compatible with this server (mixed old and new binaries?)'' []]
                 @ close_events c cn @ (if 1 < c_refcount cn then [] else free_events c) \<and>
               (\<forall>h a m. EvHandlerCreate h a m \<notin> set (new_events w w')) \<and>
               w_next_handler w' = w_next_handler w \<and>
               (w_conns w' c = None \<longleftrightarrow> c_refcount cn = 1) \<and>
               l_clients (w_listeners w' (c_listener cn)) =
                 remove1 c (l_clients (w_listeners w (c_listener cn))) \<and>
               (\<forall>cn'. w_conns w' c = Some cn' \<longrightarrow>
                  c_fd cn' = - 1 \<and> c_request_handler cn' = None \<and> \<not> c_version_received cn')"
      using input_enters_handshake[OF assms(1) assms(6-9), of E] hl assms(2,3,5)
      by (auto simp: destroyed_def new_events_def ra ce closed_conn_def close_events_def
          free_events_def)
  }
  {
    assume ok: "\<not> version_mismatch E line \<and> rest = []"
    let ?cn2 = "cn\<lparr>c_input := advanced inp, c_version_received := True\<rparr>"
    have "handshake_loop E ?w1 c = handshake_loop E (set_conn c ?cn2 ?w1) c"
      using handshake_version_match[OF c1, of line rest E] assms ok by simp
    also have "\<dots> = Inr (False, set_conn c ?cn2 ?w1)"
      using assms ok by (intro handshake_no_line[where cn = ?cn2]) (simp_all add: advanced_def)
    finally show "auth_client_input E w c =
              Inr (set_conn c (cn\<lparr>c_input := advanced inp, c_version_received := True\<rparr>)
                     (log_ev [EvIStreamRead c] w))"
      using input_enters_handshake[OF assms(1) assms(6-9), of E]
      by (simp add: set_conn_def)
  }
  {
    fix f m
    assume "CHR 0x09 \<notin> set f \<and> CHR 0x00 \<notin> set f"
    then show "version_mismatch E (''VERSION'' @ [CHR 0x09] @ f @ CHR 0x09 # m) =
              (atoi f \<noteq> protocol_major E)"
      using version_minor_ignored by simp
  }
  {
    fix l
    assume "take 8 (c_str l) \<noteq> ''VERSION'' @ [CHR 0x09]"
    then show "version_mismatch E l"
      by (simp add: version_mismatch_def strncmp_eq_def c_str_def)
  }
qed

lemma ex_parse:
  "atoi ''1'' = 1" "atoi ''2'' = 2" "strtoul_uint ''0'' = 0" "strtoul_uint ''abc'' = 0"
  "strtoul_uint ''555'' = 555"
  by (simp_all add: atoi_def strtol_def strtoul_uint_def strtoul_def subject_seq_def c_str_def
      isspace_c_def isdigit_c_def digits_val_def)

theorem version_line_check_witness:
  "(\<exists>w'. auth_client_input ex_env (ex_world_reading [ex_version_line ''2'' ''0'']) 11 = Inr w' \<and>
      new_events (ex_world_reading [ex_version_line ''2'' ''0'']) w' =
        [EvIStreamRead 11,
         EvError ''Authentication client not compatible with this server (mixed old and new binaries?)'' [],
         EvIStreamClose 11, EvOStreamClose 11, EvIoRemove 11, EvNetDisconnect 8,
         EvIStreamUnref 11, EvOStreamUnref 11, EvFree 11] \<and>
      l_clients (w_listeners w' 0) = [12, 10] \<and> w_conns w' 11 = None) \<and>
   (\<exists>w' cn'. auth_client_input ex_env (ex_world_reading [ex_version_line ''1'' ''7'']) 11 = Inr w' \<and>
      w_conns w' 11 = Some cn' \<and> c_version_received cn' \<and> c_request_handler cn' = None \<and>
      c_fd cn' = 8 \<and> l_clients (w_listeners w' 0) = [12, 10, 11])"
proof -
  let ?cn = "\<lambda>ls. ex_fresh_conn\<lparr>c_input := ex_istream\<lparr>is_script := [RdLines ls]\<rparr>\<rparr>"
  have c: "w_conns (ex_world_reading ls) 11 = Some (?cn ls)" for ls
    by (simp add: ex_world_reading_def)
  have f: "c_request_handler (?cn ls) = None" "\<not> c_version_received (?cn ls)"
    "c_fd (?cn ls) \<noteq> - 1" "1 \<le> c_refcount (?cn ls)" "c_fd (?cn ls) = 8" "c_io (?cn ls)"
    "c_refcount (?cn ls) = 1" "c_listener (?cn ls) = 0"
    for ls
    by (simp_all add: ex_fresh_conn_def ex_handshaking_conn_def ex_conn_def)
  have r: "i_stream_read (c_input (?cn [l])) =
             (1 + int (length l), ex_istream\<lparr>is_script := [], is_lines := [l]\<rparr>)" for l
    by (simp add: i_stream_read_def ex_istream_def)
  have l: "is_lines (ex_istream\<lparr>is_script := [], is_lines := [l]\<rparr>) = [l]" for l
    by simp
  have m: "version_mismatch ex_env (ex_version_line ''2'' ''0'')"
    "\<not> version_mismatch ex_env (ex_version_line ''1'' ''7'')"
    using version_minor_ignored[where f = "''2''" and m = "''0''" and E = ex_env]
      version_minor_ignored[where f = "''1''" and m = "''7''" and E = ex_env]
    by (simp_all add: ex_version_line_def ex_parse ex_env_def)
  have cl: "l_clients (w_listeners (ex_world_reading ls) 0) = [12, 10, 11]" for ls
    by (simp add: ex_world_reading_def ex_world3_def)
  have g1: "\<exists>w'. auth_client_input ex_env (ex_world_reading [ex_version_line ''2'' ''0'']) 11 = Inr w' \<and>
      new_events (ex_world_reading [ex_version_line ''2'' ''0'']) w' =
        [EvIStreamRead 11,
         EvError ''Authentication client not compatible with this server (mixed old and new binaries?)'' [],
         EvIStreamClose 11, EvOStreamClose 11, EvIoRemove 11, EvNetDisconnect 8,
         EvIStreamUnref 11, EvOStreamUnref 11, EvFree 11] \<and>
      l_clients (w_listeners w' 0) = [12, 10] \<and> w_conns w' 11 = None"
    using version_line_check[OF c f(1-4) r[of "ex_version_line ''2'' ''0''"] _ _ _ l,
        where E = ex_env] m(1) f(5-8) cl
    by (auto simp: close_events_def free_events_def f)
  have g2: "\<exists>w' cn'. auth_client_input ex_env (ex_world_reading [ex_version_line ''1'' ''7'']) 11 = Inr w' \<and>
      w_conns w' 11 = Some cn' \<and> c_version_received cn' \<and> c_request_handler cn' = None \<and>
      c_fd cn' = 8 \<and> l_clients (w_listeners w' 0) = [12, 10, 11]"
    using version_line_check[OF c f(1-4) r[of "ex_version_line ''1'' ''7''"] _ _ _ l,
        where E = ex_env] m(2) f cl
    by (auto simp: f ex_fresh_conn_def ex_handshaking_conn_def ex_conn_def)
  show ?thesis using g1 g2 by simp
qed

lemma strtoul_no_digits: "snd (subject_seq args) = [] \<Longrightarrow> strtoul_uint args = 0"
  by (cases "subject_seq args") (simp add: strtoul_uint_def strtoul_def digits_val_def)

lemma subject_seq_no_number:
  assumes "args = [] \<or> \<not> isdigit_c (hd args) \<and> \<not> isspace_c (hd args) \<and>
           hd args \<noteq> CHR ''+'' \<and> hd args \<noteq> CHR ''-''"
  shows "snd (subject_seq args) = []"
proof (cases args)
  case Nil
  then show ?thesis by (simp add: subject_seq_def c_str_def)
next
  case (Cons a as)
  with assms show ?thesis
    by (cases "a = CHR 0x00") (simp_all add: subject_seq_def c_str_def Let_def)
qed

text \<open>
  C9: in the state that awaits the client pid, a \<open>CPID\<close> line whose argument \<open>strtoul\<close>
  reads as 0 destroys the connection: the read, the error and the closing steps are all
  that happens, so no handler is created and nothing is sent. The argument \<open>0\<close> reads as
  0, and so does every argument in which \<open>strtoul\<close> finds no decimal digits at the place
  where the number must start, in particular every argument that is empty or starts with
  a character that is neither a digit, white space nor a sign.
\<close>

theorem zero_pid_is_fatal:
  assumes "w_conns w c = Some cn" and "c_request_handler cn = None"
    and "c_version_received cn" and "c_pid cn = 0" and "c_fd cn \<noteq> - 1" and "1 \<le> c_refcount cn"
    and "i_stream_read (c_input cn) = (r, inp)" and "r \<noteq> 0" and "r \<noteq> - 1" and "r \<noteq> - 2"
    and "is_lines inp = line # rest" and "strncmp_eq line (''CPID'' @ [CHR 0x09]) 5"
  shows "(strtoul_uint (drop 5 line) = 0 \<longrightarrow>
            (\<exists>w'. auth_client_input E w c = Inr w' \<and>
               new_events w w' =
                 [EvIStreamRead c, EvError ''BUG: Authentication client said it's PID 0'' []]
                 @ close_events c cn @ (if 1 < c_refcount cn then [] else free_events c) \<and>
               (\<forall>h a m. EvHandlerCreate h a m \<notin> set (new_events w w')) \<and>
               (\<forall>a s. EvOStreamSend a s \<notin> set (new_events w w')) \<and>
               w_next_handler w' = w_next_handler w \<and>
               (w_conns w' c = None \<longleftrightarrow> c_refcount cn = 1) \<and>
               l_clients (w_listeners w' (c_listener cn)) =
                 remove1 c (l_clients (w_listeners w (c_listener cn))) \<and>
               (\<forall>cn'. w_conns w' c = Some cn' \<longrightarrow>
                  c_fd cn' = - 1 \<and> c_request_handler cn' = None \<and> c_pid cn' = 0))) \<and>
         strtoul_uint ''0'' = 0 \<and>
         (\<forall>args. snd (subject_seq args) = [] \<longrightarrow> strtoul_uint args = 0) \<and>
         (\<forall>args. args = [] \<or> \<not> isdigit_c (hd args) \<and> \<not> isspace_c (hd args) \<and>
                 hd args \<noteq> CHR ''+'' \<and> hd args \<noteq> CHR ''-'' \<longrightarrow> strtoul_uint args = 0)"
proof (intro conjI impI allI)
  let ?w1 = "set_conn c (cn\<lparr>c_input := inp\<rparr>) (log_ev [EvIStreamRead c] w)"
  let ?cn1 = "cn\<lparr>c_input := inp\<rparr>"
  have c1: "w_conns ?w1 c = Some ?cn1" by simp
  {
    assume z: "strtoul_uint (drop 5 line) = 0"
    have hl: "handshake_loop E ?w1 c =
           Inr (False, destroyed E
             (log_ev [EvError ''BUG: Authentication client said it's PID 0'' []]
                (set_conn c (?cn1\<lparr>c_input := advanced (c_input ?cn1)\<rparr>) ?w1))
             c (?cn1\<lparr>c_input := advanced (c_input ?cn1)\<rparr>))"
      using assms z by (intro handshake_zero_pid[OF c1, where rest = rest]) simp_all
    have ra: "refs_after_destroy E (cn\<lparr>c_input := advanced inp\<rparr>) = c_refcount cn - 1"
      using assms(2) by (simp add: refs_after_destroy_def)
    have ce: "close_events c (cn\<lparr>c_input := advanced inp\<rparr>) = close_events c cn"
      by (simp add: close_events_def)
    show "\<exists>w'. auth_client_input E w c = Inr w' \<and>
               new_events w w' =
                 [EvIStreamRead c, EvError ''BUG: Authentication client said it's PID 0'' []]
                 @ close_events c cn @ (if 1 < c_refcount cn then [] else free_events c) \<and>
               (\<forall>h a m. EvHandlerCreate h a m \<notin> set (new_events w w')) \<and>
               (\<forall>a s. EvOStreamSend a s \<notin> set (new_events w w')) \<and>
               w_next_handler w' = w_next_handler w \<and>
               (w_conns w' c = None \<longleftrightarrow> c_refcount cn = 1) \<and>
               l_clients (w_listeners w' (c_listener cn)) =
                 remove1 c (l_clients (w_listeners w (c_listener cn))) \<and>
               (\<forall>cn'. w_conns w' c = Some cn' \<longrightarrow>
                  c_fd cn' = - 1 \<and> c_request_handler cn' = None \<and> c_pid cn' = 0)"
      unfolding input_enters_handshake[OF assms(1) assms(7-10), of E] hl
      using assms(2,4,6)
      by (simp add: destroyed_def new_events_def ra ce closed_conn_def close_events_def
          free_events_def)
  }
  show "strtoul_uint ''0'' = 0"
    by (simp add: strtoul_uint_def strtoul_def subject_seq_def c_str_def
        isspace_c_def isdigit_c_def digits_val_def)
  {
    fix args
    assume "snd (subject_seq args) = []"
    then show "strtoul_uint args = 0" by (rule strtoul_no_digits)
  }
  {
    fix args
    assume "args = [] \<or> \<not> isdigit_c (hd args) \<and> \<not> isspace_c (hd args) \<and>
                 hd args \<noteq> CHR ''+'' \<and> hd args \<noteq> CHR ''-''"
    then show "strtoul_uint args = 0"
      by (intro strtoul_no_digits subject_seq_no_number)
  }
qed

theorem zero_pid_is_fatal_witness:
  "strncmp_eq (ex_cpid_line ''abc'') (''CPID'' @ [CHR 0x09]) 5 \<and>
   strtoul_uint (drop 5 (ex_cpid_line ''abc'')) = 0 \<and>
   (\<exists>w'. auth_client_input ex_env (ex_world_awaiting_pid [ex_cpid_line ''abc'']) 11 = Inr w' \<and>
      new_events (ex_world_awaiting_pid [ex_cpid_line ''abc'']) w' =
        [EvIStreamRead 11, EvError ''BUG: Authentication client said it's PID 0'' [],
         EvIStreamClose 11, EvOStreamClose 11, EvIoRemove 11, EvNetDisconnect 8,
         EvIStreamUnref 11, EvOStreamUnref 11, EvFree 11] \<and>
      l_clients (w_listeners w' 0) = [12, 10] \<and> w_conns w' 11 = None \<and>
      w_next_handler w' = 3)"
proof -
  let ?cn = "ex_handshaking_conn\<lparr>c_input := ex_istream\<lparr>is_script := [RdLines [ex_cpid_line ''abc'']]\<rparr>\<rparr>"
  let ?w = "ex_world_awaiting_pid [ex_cpid_line ''abc'']"
  have c: "w_conns ?w 11 = Some ?cn"
    by (simp add: ex_world_awaiting_pid_def)
  have f: "c_request_handler ?cn = None" "c_version_received ?cn" "c_pid ?cn = 0"
    "c_fd ?cn \<noteq> - 1" "1 \<le> c_refcount ?cn"
    by (simp_all add: ex_handshaking_conn_def ex_conn_def)
  have f': "c_fd ?cn = 8" "c_io ?cn" "c_refcount ?cn = 1" "c_listener ?cn = 0"
    by (simp_all add: ex_handshaking_conn_def ex_conn_def)
  have r: "i_stream_read (c_input ?cn) =
             (1 + int (length (ex_cpid_line ''abc'')),
              ex_istream\<lparr>is_script := [], is_lines := [ex_cpid_line ''abc'']\<rparr>)"
    by (simp add: i_stream_read_def ex_istream_def)
  have l: "is_lines (ex_istream\<lparr>is_script := [], is_lines := [ex_cpid_line ''abc'']\<rparr>) =
           [ex_cpid_line ''abc'']"
    by simp
  have p: "strncmp_eq (ex_cpid_line ''abc'') (''CPID'' @ [CHR 0x09]) 5"
    "strtoul_uint (drop 5 (ex_cpid_line ''abc'')) = 0"
    by (simp_all add: ex_cpid_line_def strncmp_eq_def c_str_def ex_parse)
  have w: "l_clients (w_listeners ?w 0) = [12, 10, 11]" "w_next_handler ?w = 3"
    by (simp_all add: ex_world_awaiting_pid_def ex_world3_def)
  show ?thesis
    using zero_pid_is_fatal[OF c f r _ _ _ l p(1), where E = ex_env] p f' w
    by (auto simp: close_events_def free_events_def f f')
qed

section \<open>The handshake: a pid that is already claimed\<close>

lemma cpid_bind_eq:
  "w_conns w c = Some cn \<Longrightarrow> cpid_bind E w c pid = Inr (True, handler_bound w c cn pid)"
  by (simp add: cpid_bind_def handler_bound_def Let_def)

lemma lookup_scan_pid_cong:
  "(\<And>a. a \<in> set as \<Longrightarrow> map_option c_pid (w_conns w' a) = map_option c_pid (w_conns w a)) \<Longrightarrow>
   lookup_scan w' as pid = lookup_scan w as pid"
proof (induction as)
  case Nil
  then show ?case by simp
next
  case (Cons a as)
  have "map_option c_pid (w_conns w' a) = map_option c_pid (w_conns w a)"
    using Cons.prems by simp
  moreover have "lookup_scan w' as pid = lookup_scan w as pid"
    using Cons by simp
  ultimately show ?case
    by (cases "w_conns w a"; cases "w_conns w' a") auto
qed

lemma lookup_scan_found:
  "lookup_scan w as pid = Inr (Some a) \<Longrightarrow>
   a \<in> set as \<and> (\<exists>cn. w_conns w a = Some cn \<and> c_pid cn = pid)"
  by (induction as) (auto split: option.splits if_splits)

lemma lookup_scan_none:
  "\<forall>b \<in> set as. \<exists>bn. w_conns w b = Some bn \<and> c_pid bn \<noteq> pid \<Longrightarrow>
   lookup_scan w as pid = Inr None"
  by (induction as) auto

lemma lookup_scan_first:
  assumes "a \<in> set as" and "w_conns w a = Some cn" and "c_pid cn = pid"
    and "\<forall>b \<in> set as. b \<noteq> a \<longrightarrow> (\<exists>bn. w_conns w b = Some bn \<and> c_pid bn \<noteq> pid)"
  shows "lookup_scan w as pid = Inr (Some a)"
  using assms by (induction as) auto

lemma pid_claimed_once_others:
  assumes "pid_claimed_once w l pid" and "registry_ok w l"
    and "a \<in> set (l_clients (w_listeners w l))" and "w_conns w a = Some an" and "c_pid an = pid"
    and "b \<in> set (l_clients (w_listeners w l))" and "b \<noteq> a"
  shows "\<exists>bn. w_conns w b = Some bn \<and> c_pid bn \<noteq> pid"
proof -
  let ?P = "\<lambda>x. map_option c_pid (w_conns w x) = Some pid"
  let ?cl = "l_clients (w_listeners w l)"
  from assms(2,6) obtain bn where bn: "w_conns w b = Some bn"
    by (auto simp: registry_ok_def split: option.splits)
  have "c_pid bn \<noteq> pid"
  proof
    assume e: "c_pid bn = pid"
    have d: "distinct (filter ?P ?cl)" using assms(2) by (simp add: registry_ok_def)
    have "a \<in> set (filter ?P ?cl)" "b \<in> set (filter ?P ?cl)"
      using assms bn e by simp_all
    then have "{a, b} \<subseteq> set (filter ?P ?cl)" by simp
    then have "card {a, b} \<le> card (set (filter ?P ?cl))"
      by (intro card_mono) simp_all
    then have "2 \<le> length (filter ?P ?cl)"
      using assms(7) distinct_card[OF d] by simp
    then show False using assms(1) by (simp add: pid_claimed_once_def)
  qed
  with bn show ?thesis by simp
qed

lemma cpid_duplicate:
  assumes c1: "w_conns w1 c = Some cn1" and p0: "c_pid cn1 = 0"
    and pid: "strtoul_uint args = pid" "pid \<noteq> 0"
    and lk: "auth_client_connection_lookup w1 (c_listener cn1) pid = Inr (Some old)"
    and o1: "w_conns w1 old = Some on" and rd: "i_stream_read (c_input on) = (ro, inpo)"
    and live: "c_fd on \<noteq> - 1" "refs_ok on"
  shows "old \<noteq> c"
    and "ro = - 1 \<Longrightarrow> auth_client_input_cpid E w1 c args =
           Inr (True, handler_bound
                  (destroyed E (set_conn old (on\<lparr>c_input := inpo\<rparr>) (log_ev [EvIStreamRead old] w1))
                     old (on\<lparr>c_input := inpo\<rparr>)) c cn1 pid)"
    and "ro \<noteq> - 1 \<Longrightarrow> auth_client_input_cpid E w1 c args =
           Inr (False, log_ev [EvError
                  ''BUG: Authentication client gave a PID %u of existing connection'' [pid]]
                  (set_conn old (on\<lparr>c_input := inpo\<rparr>) (log_ev [EvIStreamRead old] w1)))"
proof -
  from lookup_scan_found[OF lk[unfolded auth_client_connection_lookup_def]] o1
  have "c_pid on = pid" by auto
  with p0 pid c1 o1 show ne: "old \<noteq> c" by auto
  let ?w2 = "set_conn old (on\<lparr>c_input := inpo\<rparr>) (log_ev [EvIStreamRead old] w1)"
  have d: "auth_client_connection_destroy E ?w2 old =
           Inr (destroyed E ?w2 old (on\<lparr>c_input := inpo\<rparr>))"
    using live by (intro destroy_live) (simp_all add: refs_ok_def)
  have c3: "w_conns (destroyed E ?w2 old (on\<lparr>c_input := inpo\<rparr>)) c = Some cn1"
    using ne c1 by (simp add: destroyed_def)
  show "auth_client_input_cpid E w1 c args =
           Inr (True, handler_bound (destroyed E ?w2 old (on\<lparr>c_input := inpo\<rparr>)) c cn1 pid)"
    if "ro = - 1"
    using that c1 p0 pid lk o1 rd ne d cpid_bind_eq[OF c3, of E pid]
    by (simp add: auth_client_input_cpid_def)
  show "auth_client_input_cpid E w1 c args =
           Inr (False, log_ev [EvError
                  ''BUG: Authentication client gave a PID %u of existing connection'' [pid]] ?w2)"
    if "ro \<noteq> - 1"
    using that c1 p0 pid lk o1 rd ne
    by (simp add: auth_client_input_cpid_def)
qed

lemma handshake_duplicate:
  assumes c: "w_conns w c = Some cn" and h: "c_request_handler cn = None"
    and v: "c_version_received cn" and p0: "c_pid cn = 0"
    and ln: "is_lines (c_input cn) = line # rest"
    and cp: "strncmp_eq line (''CPID'' @ [CHR 0x09]) 5"
    and pid: "strtoul_uint (drop 5 line) = pid" "pid \<noteq> 0"
    and lk: "auth_client_connection_lookup w (c_listener cn) pid = Inr (Some old)"
    and o: "w_conns w old = Some on" and rd: "i_stream_read (c_input on) = (ro, inpo)"
    and live: "c_fd on \<noteq> - 1" "refs_ok on"
  shows "old \<noteq> c"
    and "ro = - 1 \<Longrightarrow> handshake_loop E w c =
           Inr (True, handler_bound
                  (destroyed E (set_conn old (on\<lparr>c_input := inpo\<rparr>)
                       (log_ev [EvIStreamRead old]
                          (set_conn c (cn\<lparr>c_input := advanced (c_input cn)\<rparr>) w)))
                     old (on\<lparr>c_input := inpo\<rparr>)) c
                  (cn\<lparr>c_input := advanced (c_input cn)\<rparr>) pid)"
    and "ro \<noteq> - 1 \<Longrightarrow> c_fd cn \<noteq> - 1 \<Longrightarrow> 1 \<le> c_refcount cn \<Longrightarrow> handshake_loop E w c =
           Inr (False, destroyed E
                  (log_ev [EvError
                     ''BUG: Authentication client gave a PID %u of existing connection'' [pid]]
                     (set_conn old (on\<lparr>c_input := inpo\<rparr>)
                        (log_ev [EvIStreamRead old]
                           (set_conn c (cn\<lparr>c_input := advanced (c_input cn)\<rparr>) w))))
                  c (cn\<lparr>c_input := advanced (c_input cn)\<rparr>))"
proof -
  let ?cn1 = "cn\<lparr>c_input := advanced (c_input cn)\<rparr>"
  let ?w1 = "set_conn c ?cn1 w"
  let ?w2 = "set_conn old (on\<lparr>c_input := inpo\<rparr>) (log_ev [EvIStreamRead old] ?w1)"
  from lookup_scan_found[OF lk[unfolded auth_client_connection_lookup_def]] o
  have "c_pid on = pid" by auto
  with p0 pid c o show ne: "old \<noteq> c" by auto
  have c1: "w_conns ?w1 c = Some ?cn1" by simp
  have o1: "w_conns ?w1 old = Some on" using ne o by simp
  have "lookup_scan ?w1 as pid = lookup_scan w as pid" for as
    using c by (intro lookup_scan_pid_cong) simp
  then have lk1: "auth_client_connection_lookup ?w1 (c_listener ?cn1) pid = Inr (Some old)"
    using lk by (simp add: auth_client_connection_lookup_def)
  have p1: "c_pid ?cn1 = 0" using p0 by simp
  note dup = cpid_duplicate[OF c1 p1 pid lk1 o1 rd live]
  note step = handshake_cpid_line[OF c h ln v cp, of E]
  {
    assume ro: "ro = - 1"
    let ?w4 = "handler_bound (destroyed E ?w2 old (on\<lparr>c_input := inpo\<rparr>)) c ?cn1 pid"
    have "\<exists>cn4. w_conns ?w4 c = Some cn4 \<and> c_request_handler cn4 \<noteq> None"
      by (simp add: handler_bound_def)
    then have "handshake_loop E ?w4 c = Inr (True, ?w4)"
      using handshake_bound by blast
    then show "handshake_loop E w c = Inr (True, ?w4)"
      using step dup(2)[OF ro] by simp
  }
  {
    assume ro: "ro \<noteq> - 1" and fd: "c_fd cn \<noteq> - 1" and rc: "1 \<le> c_refcount cn"
    let ?w3 = "log_ev [EvError
                 ''BUG: Authentication client gave a PID %u of existing connection'' [pid]] ?w2"
    have "auth_client_connection_destroy E ?w3 c = Inr (destroyed E ?w3 c ?cn1)"
      using ne fd rc h by (intro destroy_live) (simp_all add: refs_ok_def)
    then show "handshake_loop E w c = Inr (False, destroyed E ?w3 c ?cn1)"
      using step dup(3)[OF ro] by simp
  }
qed

lemma active_loop_no_line:
  "w_conns w c = Some cn \<Longrightarrow> is_lines (c_input cn) = [] \<Longrightarrow> active_loop E w c = Inr w"
  by (subst active_loop.simps) (simp add: i_stream_next_line_def)

lemma set_conn_twice: "set_conn c x (set_conn c y w) = set_conn c x w"
  by (simp add: set_conn_def)

lemma registry_okD:
  assumes "registry_ok w l" and "a \<in> set (l_clients (w_listeners w l))"
  shows "\<exists>an. w_conns w a = Some an \<and> c_listener an = l \<and> c_fd an \<noteq> - 1 \<and> refs_ok an"
  using assms by (auto simp: registry_ok_def split: option.splits)

lemma duplicate_accepted:
  assumes c: "w_conns w c = Some cn" and h: "c_request_handler cn = None"
    and v: "c_version_received cn" and p0: "c_pid cn = 0" and rc: "1 \<le> c_refcount cn"
    and r: "i_stream_read (c_input cn) = (r, inp)" "r \<noteq> 0" "r \<noteq> - 1" "r \<noteq> - 2"
    and ln: "is_lines inp = [line]"
    and cp: "strncmp_eq line (''CPID'' @ [CHR 0x09]) 5"
    and pid: "strtoul_uint (drop 5 line) = pid" "pid \<noteq> 0"
    and lk: "auth_client_connection_lookup w (c_listener cn) pid = Inr (Some old)"
    and o: "w_conns w old = Some on" and rd: "i_stream_read (c_input on) = (- 1, inpo)"
    and live: "c_fd on \<noteq> - 1" "refs_ok on"
  shows "auth_client_input E w c =
     Inr (set_conn c (cn\<lparr>c_input := advanced inp, c_refcount := c_refcount cn + 1,
                        c_request_handler := Some (w_next_handler w), c_pid := pid\<rparr>)
            (handler_bound
               (destroyed E (set_conn old (on\<lparr>c_input := inpo\<rparr>)
                    (log_ev [EvIStreamRead old]
                       (set_conn c (cn\<lparr>c_input := advanced inp\<rparr>)
                          (set_conn c (cn\<lparr>c_input := inp\<rparr>) (log_ev [EvIStreamRead c] w)))))
                  old (on\<lparr>c_input := inpo\<rparr>)) c
               (cn\<lparr>c_input := advanced inp\<rparr>) pid))"
proof -
  let ?cnr = "cn\<lparr>c_input := inp\<rparr>"
  let ?wr = "set_conn c ?cnr (log_ev [EvIStreamRead c] w)"
  let ?cn1 = "cn\<lparr>c_input := advanced inp\<rparr>"
  let ?w2 = "set_conn old (on\<lparr>c_input := inpo\<rparr>) (log_ev [EvIStreamRead old] (set_conn c ?cn1 ?wr))"
  let ?w4 = "handler_bound (destroyed E ?w2 old (on\<lparr>c_input := inpo\<rparr>)) c ?cn1 pid"
  let ?cn4 = "cn\<lparr>c_input := advanced inp, c_refcount := c_refcount cn + 1,
                 c_request_handler := Some (w_next_handler w), c_pid := pid\<rparr>"
  from lookup_scan_found[OF lk[unfolded auth_client_connection_lookup_def]] o
  have "c_pid on = pid" by auto
  with p0 pid c o have ne: "old \<noteq> c" by auto
  have cr: "w_conns ?wr c = Some ?cnr" by simp
  have orr: "w_conns ?wr old = Some on" using ne o by simp
  have "lookup_scan ?wr as pid = lookup_scan w as pid" for as
    using c by (intro lookup_scan_pid_cong) simp
  then have lkr: "auth_client_connection_lookup ?wr (c_listener ?cnr) pid = Inr (Some old)"
    using lk by (simp add: auth_client_connection_lookup_def)
  have hs: "handshake_loop E ?wr c = Inr (True, ?w4)"
    using handshake_duplicate(2)[OF cr _ _ _ _ cp pid lkr orr rd live, of rest E for rest]
      h v p0 ln
    by simp
  have nh: "w_next_handler (destroyed E ?w2 old (on\<lparr>c_input := inpo\<rparr>)) = w_next_handler w"
    by (simp add: destroyed_def)
  have c4: "w_conns ?w4 c = Some ?cn4"
    by (simp add: handler_bound_def nh)
  let ?w5 = "set_conn c (?cn4\<lparr>c_refcount := c_refcount ?cn4 + 1\<rparr>) ?w4"
  have "is_lines (advanced inp) = []" using ln by (simp add: advanced_def)
  then have al: "active_loop E ?w5 c = Inr ?w5"
    by (intro active_loop_no_line[where cn = "?cn4\<lparr>c_refcount := c_refcount ?cn4 + 1\<rparr>"]) simp_all
  have e: "(?cn4\<lparr>c_refcount := c_refcount ?cn4 + 1\<rparr>)
             \<lparr>c_refcount := c_refcount (?cn4\<lparr>c_refcount := c_refcount ?cn4 + 1\<rparr>) - 1\<rparr> = ?cn4"
    by (cases cn) simp
  have w5c: "w_conns ?w5 c = Some (?cn4\<lparr>c_refcount := c_refcount ?cn4 + 1\<rparr>)"
    by (simp only: world_fields fun_upd_same)
  have pos: "0 < c_refcount (?cn4\<lparr>c_refcount := c_refcount ?cn4 + 1\<rparr>) - 1"
    using rc by simp
  have "auth_client_connection_unref ?w5 c =
          Inr (set_conn c ((?cn4\<lparr>c_refcount := c_refcount ?cn4 + 1\<rparr>)
             \<lparr>c_refcount := c_refcount (?cn4\<lparr>c_refcount := c_refcount ?cn4 + 1\<rparr>) - 1\<rparr>) ?w5)"
    by (simp only: auth_client_connection_unref_def w5c option.case pos if_True)
  then have un: "auth_client_connection_unref ?w5 c = Inr (set_conn c ?cn4 ?w4)"
    by (simp only: e set_conn_twice)
  show ?thesis
    unfolding input_enters_handshake[OF c r, of E] hs
    using c4 al un by simp
qed

lemma duplicate_rejected:
  assumes c: "w_conns w c = Some cn" and h: "c_request_handler cn = None"
    and v: "c_version_received cn" and p0: "c_pid cn = 0" and rc: "1 \<le> c_refcount cn"
    and fd: "c_fd cn \<noteq> - 1"
    and r: "i_stream_read (c_input cn) = (r, inp)" "r \<noteq> 0" "r \<noteq> - 1" "r \<noteq> - 2"
    and ln: "is_lines inp = line # rest"
    and cp: "strncmp_eq line (''CPID'' @ [CHR 0x09]) 5"
    and pid: "strtoul_uint (drop 5 line) = pid" "pid \<noteq> 0"
    and lk: "auth_client_connection_lookup w (c_listener cn) pid = Inr (Some old)"
    and o: "w_conns w old = Some on" and rd: "i_stream_read (c_input on) = (ro, inpo)"
    and ro: "ro \<noteq> - 1"
    and live: "c_fd on \<noteq> - 1" "refs_ok on"
  shows "auth_client_input E w c =
     Inr (destroyed E
            (log_ev [EvError
               ''BUG: Authentication client gave a PID %u of existing connection'' [pid]]
               (set_conn old (on\<lparr>c_input := inpo\<rparr>)
                  (log_ev [EvIStreamRead old]
                     (set_conn c (cn\<lparr>c_input := advanced inp\<rparr>)
                        (set_conn c (cn\<lparr>c_input := inp\<rparr>) (log_ev [EvIStreamRead c] w))))))
            c (cn\<lparr>c_input := advanced inp\<rparr>))"
proof -
  let ?cnr = "cn\<lparr>c_input := inp\<rparr>"
  let ?wr = "set_conn c ?cnr (log_ev [EvIStreamRead c] w)"
  from lookup_scan_found[OF lk[unfolded auth_client_connection_lookup_def]] o
  have "c_pid on = pid" by auto
  with p0 pid c o have ne: "old \<noteq> c" by auto
  have cr: "w_conns ?wr c = Some ?cnr" by simp
  have orr: "w_conns ?wr old = Some on" using ne o by simp
  have "lookup_scan ?wr as pid = lookup_scan w as pid" for as
    using c by (intro lookup_scan_pid_cong) simp
  then have lkr: "auth_client_connection_lookup ?wr (c_listener ?cnr) pid = Inr (Some old)"
    using lk by (simp add: auth_client_connection_lookup_def)
  have hs: "handshake_loop E ?wr c =
     Inr (False, destroyed E
            (log_ev [EvError
               ''BUG: Authentication client gave a PID %u of existing connection'' [pid]]
               (set_conn old (on\<lparr>c_input := inpo\<rparr>)
                  (log_ev [EvIStreamRead old]
                     (set_conn c (cn\<lparr>c_input := advanced inp\<rparr>) ?wr))))
            c (cn\<lparr>c_input := advanced inp\<rparr>))"
    using handshake_duplicate(3)[OF cr _ _ _ _ cp pid lkr orr rd live ro, of rest E]
      h v p0 ln fd rc
    by simp
  show ?thesis
    unfolding input_enters_handshake[OF c r, of E] hs by simp
qed

lemma count_list_close_events [simp]:
  "count_list (close_events a an) (EvIStreamRead b) = 0"
  "count_list (free_events a) (EvIStreamRead b) = 0"
  by (simp_all add: close_events_def free_events_def split: option.splits)

lemma set_conn_same: "w_conns w c = Some cn \<Longrightarrow> set_conn c cn w = w"
  by (simp add: set_conn_def fun_upd_idem)

lemma handshake_duplicate_after_read:
  assumes c: "w_conns w c = Some cn" and h: "c_request_handler cn = None"
    and v: "c_version_received cn" and p0: "c_pid cn = 0"
    and ln: "is_lines inp = line # rest"
    and cp: "strncmp_eq line (''CPID'' @ [CHR 0x09]) 5"
    and pid: "strtoul_uint (drop 5 line) = pid" "pid \<noteq> 0"
    and lk: "auth_client_connection_lookup w (c_listener cn) pid = Inr (Some old)"
    and o: "w_conns w old = Some on" and rd: "i_stream_read (c_input on) = (ro, inpo)"
    and ro: "ro = - 1"
    and live: "c_fd on \<noteq> - 1" "refs_ok on"
  shows "handshake_loop E (set_conn c (cn\<lparr>c_input := inp\<rparr>) (log_ev [EvIStreamRead c] w)) c =
     Inr (True, handler_bound
            (destroyed E (set_conn old (on\<lparr>c_input := inpo\<rparr>)
                 (log_ev [EvIStreamRead old]
                    (set_conn c (cn\<lparr>c_input := advanced inp\<rparr>)
                       (set_conn c (cn\<lparr>c_input := inp\<rparr>) (log_ev [EvIStreamRead c] w)))))
               old (on\<lparr>c_input := inpo\<rparr>)) c
            (cn\<lparr>c_input := advanced inp\<rparr>) pid)"
proof -
  let ?cnr = "cn\<lparr>c_input := inp\<rparr>"
  let ?wr = "set_conn c ?cnr (log_ev [EvIStreamRead c] w)"
  from lookup_scan_found[OF lk[unfolded auth_client_connection_lookup_def]] o
  have "c_pid on = pid" by auto
  with p0 pid c o have ne: "old \<noteq> c" by auto
  have cr: "w_conns ?wr c = Some ?cnr" by simp
  have orr: "w_conns ?wr old = Some on" using ne o by simp
  have "lookup_scan ?wr as pid = lookup_scan w as pid" for as
    using c by (intro lookup_scan_pid_cong) simp
  then have lkr: "auth_client_connection_lookup ?wr (c_listener ?cnr) pid = Inr (Some old)"
    using lk by (simp add: auth_client_connection_lookup_def)
  show ?thesis
    using handshake_duplicate(2)[OF cr _ _ _ _ cp pid lkr orr rd live ro, of rest E]
      h v p0 ln
    by simp
qed

text \<open>
  C1: a connection that awaits the client pid, registered with a well-formed listener in
  which at most one connection claims the pid, reads a \<open>CPID\<close> line with a nonzero pid
  that the lookup finds claimed by \<open>old\<close>. The input of \<open>old\<close> is read exactly once. If that
  read returns -1, \<open>old\<close> is destroyed and deleted from the client array, and the
  handshake loop is left with the new connection bound to a handler, holding the pid and
  one more reference, still registered and found by the lookup of the pid; when the
  \<open>CPID\<close> line is the last line buffered, so that no command follows in the same call,
  this is the world the read callback returns. Otherwise the new
  connection is destroyed and deleted from the array, no handler is created, and \<open>old\<close>
  stays registered, unchanged but for the read, and is still what the lookup finds.
\<close>

theorem duplicate_pid_reconciliation:
  assumes c: "w_conns w c = Some cn" and h: "c_request_handler cn = None"
    and v: "c_version_received cn" and p0: "c_pid cn = 0"
    and reg: "registry_ok w (c_listener cn)" "c \<in> set (l_clients (w_listeners w (c_listener cn)))"
      "pid_claimed_once w (c_listener cn) pid"
    and r: "i_stream_read (c_input cn) = (r, inp)" "r \<noteq> 0" "r \<noteq> - 1" "r \<noteq> - 2"
    and ln: "is_lines inp = line # rest"
    and cp: "strncmp_eq line (''CPID'' @ [CHR 0x09]) 5"
    and pid: "strtoul_uint (drop 5 line) = pid" "pid \<noteq> 0"
    and lk: "auth_client_connection_lookup w (c_listener cn) pid = Inr (Some old)"
    and o: "w_conns w old = Some on" and rd: "i_stream_read (c_input on) = (ro, inpo)"
  shows "(ro = - 1 \<longrightarrow>
           (\<exists>w'. handshake_loop E
                   (set_conn c (cn\<lparr>c_input := inp\<rparr>) (log_ev [EvIStreamRead c] w)) c =
                 Inr (True, w') \<and>
              (rest = [] \<longrightarrow> auth_client_input E w c = Inr w') \<and>
              new_events w w' =
                [EvIStreamRead c, EvIStreamRead old] @ close_events old on @
                (if 0 < refs_after_destroy E on then [] else free_events old) @
                [EvHandlerCreate (w_next_handler w) c
                   (l_masters (w_listeners w (c_listener cn)) \<noteq> 0),
                 EvHandlerSet (w_next_handler w) (c_connect_uid cn) pid] \<and>
              count_list (new_events w w') (EvIStreamRead old) = 1 \<and>
              l_clients (w_listeners w' (c_listener cn)) =
                remove1 old (l_clients (w_listeners w (c_listener cn))) \<and>
              old \<notin> set (l_clients (w_listeners w' (c_listener cn))) \<and>
              c \<in> set (l_clients (w_listeners w' (c_listener cn))) \<and>
              w_conns w' c =
                Some (cn\<lparr>c_input := advanced inp, c_refcount := c_refcount cn + 1,
                         c_request_handler := Some (w_next_handler w), c_pid := pid\<rparr>) \<and>
              auth_client_connection_lookup w' (c_listener cn) pid = Inr (Some c))) \<and>
         (ro \<noteq> - 1 \<longrightarrow>
           (\<exists>w'. auth_client_input E w c = Inr w' \<and>
              new_events w w' =
                [EvIStreamRead c, EvIStreamRead old,
                 EvError ''BUG: Authentication client gave a PID %u of existing connection'' [pid]]
                @ close_events c cn @ (if 1 < c_refcount cn then [] else free_events c) \<and>
              count_list (new_events w w') (EvIStreamRead old) = 1 \<and>
              l_clients (w_listeners w' (c_listener cn)) =
                remove1 c (l_clients (w_listeners w (c_listener cn))) \<and>
              c \<notin> set (l_clients (w_listeners w' (c_listener cn))) \<and>
              old \<in> set (l_clients (w_listeners w' (c_listener cn))) \<and>
              w_conns w' old = Some (on\<lparr>c_input := inpo\<rparr>) \<and>
              (\<forall>cn'. w_conns w' c = Some cn' \<longrightarrow> c_fd cn' = - 1 \<and> c_request_handler cn' = None) \<and>
              auth_client_connection_lookup w' (c_listener cn) pid = Inr (Some old)))"
proof -
  let ?l = "c_listener cn"
  let ?cl = "l_clients (w_listeners w ?l)"
  from lookup_scan_found[OF lk[unfolded auth_client_connection_lookup_def]] o
  have om: "old \<in> set ?cl" and opid: "c_pid on = pid" by auto
  with p0 pid c o have ne: "old \<noteq> c" by auto
  from registry_okD[OF reg(1) om] o
  have ol: "c_listener on = ?l" and live: "c_fd on \<noteq> - 1" "refs_ok on" by auto
  from registry_okD[OF reg(1) reg(2)] c
  have fd: "c_fd cn \<noteq> - 1" and rc: "1 \<le> c_refcount cn" by (auto simp: refs_ok_def)
  have dist: "distinct ?cl" using reg(1) by (simp add: registry_ok_def)
  have others: "\<exists>bn. w_conns w b = Some bn \<and> c_pid bn \<noteq> pid"
    if "b \<in> set ?cl" "b \<noteq> old" for b
    using pid_claimed_once_others[OF reg(3) reg(1) om o opid that] .
  have accept: "\<exists>w'. handshake_loop E
                   (set_conn c (cn\<lparr>c_input := inp\<rparr>) (log_ev [EvIStreamRead c] w)) c =
                 Inr (True, w') \<and>
              (rest = [] \<longrightarrow> auth_client_input E w c = Inr w') \<and>
              new_events w w' =
                [EvIStreamRead c, EvIStreamRead old] @ close_events old on @
                (if 0 < refs_after_destroy E on then [] else free_events old) @
                [EvHandlerCreate (w_next_handler w) c
                   (l_masters (w_listeners w (c_listener cn)) \<noteq> 0),
                 EvHandlerSet (w_next_handler w) (c_connect_uid cn) pid] \<and>
              count_list (new_events w w') (EvIStreamRead old) = 1 \<and>
              l_clients (w_listeners w' (c_listener cn)) =
                remove1 old (l_clients (w_listeners w (c_listener cn))) \<and>
              old \<notin> set (l_clients (w_listeners w' (c_listener cn))) \<and>
              c \<in> set (l_clients (w_listeners w' (c_listener cn))) \<and>
              w_conns w' c =
                Some (cn\<lparr>c_input := advanced inp, c_refcount := c_refcount cn + 1,
                         c_request_handler := Some (w_next_handler w), c_pid := pid\<rparr>) \<and>
              auth_client_connection_lookup w' (c_listener cn) pid = Inr (Some c)"
    if ro: "ro = - 1"
  proof -
    let ?on2 = "on\<lparr>c_input := inpo\<rparr>"
    let ?cn4 = "cn\<lparr>c_input := advanced inp, c_refcount := c_refcount cn + 1,
                   c_request_handler := Some (w_next_handler w), c_pid := pid\<rparr>"
    let ?wr = "set_conn c (cn\<lparr>c_input := inp\<rparr>) (log_ev [EvIStreamRead c] w)"
    define w' where "w' =
            handler_bound
               (destroyed E (set_conn old ?on2
                    (log_ev [EvIStreamRead old]
                       (set_conn c (cn\<lparr>c_input := advanced inp\<rparr>) ?wr)))
                  old ?on2) c
               (cn\<lparr>c_input := advanced inp\<rparr>) pid"
    have cc: "w_conns w' c = Some ?cn4"
      by (simp add: w'_def handler_bound_def destroyed_def)
    have hs: "handshake_loop E ?wr c = Inr (True, w')"
      unfolding w'_def
      using handshake_duplicate_after_read[OF c h v p0 ln cp pid lk o rd ro live] .
    have res: "auth_client_input E w c = Inr w'" if "rest = []"
      using duplicate_accepted[OF c h v p0 rc r _ cp pid lk o _ live, of inpo E] ln rd ro that
        set_conn_same[OF cc]
      by (simp add: w'_def)
    have ce: "close_events old ?on2 = close_events old on"
      "refs_after_destroy E ?on2 = refs_after_destroy E on"
      by (simp_all add: close_events_def refs_after_destroy_def)
    have tr: "w_trace w' = w_trace w @
                [EvIStreamRead c, EvIStreamRead old] @ close_events old on @
                (if 0 < refs_after_destroy E on then [] else free_events old) @
                [EvHandlerCreate (w_next_handler w) c
                   (l_masters (w_listeners w (c_listener cn)) \<noteq> 0),
                 EvHandlerSet (w_next_handler w) (c_connect_uid cn) pid]"
      using ol by (simp add: w'_def handler_bound_def destroyed_def ce)
    then have ev: "new_events w w' =
                [EvIStreamRead c, EvIStreamRead old] @ close_events old on @
                (if 0 < refs_after_destroy E on then [] else free_events old) @
                [EvHandlerCreate (w_next_handler w) c
                   (l_masters (w_listeners w (c_listener cn)) \<noteq> 0),
                 EvHandlerSet (w_next_handler w) (c_connect_uid cn) pid]"
      by (simp add: new_events_def)
    have cnt: "count_list (new_events w w') (EvIStreamRead old) = 1"
      using ne by (simp add: ev)
    have cl: "l_clients (w_listeners w' ?l) = remove1 old ?cl"
      using ol by (simp add: w'_def handler_bound_def destroyed_def)
    have gone: "old \<notin> set (remove1 old ?cl)" using dist by simp
    have here: "c \<in> set (remove1 old ?cl)" using reg(2) ne by simp
    have oth: "\<exists>bn. w_conns w' b = Some bn \<and> c_pid bn \<noteq> pid"
      if "b \<in> set (remove1 old ?cl)" "b \<noteq> c" for b
    proof -
      from that(1) dist have b: "b \<in> set ?cl" "b \<noteq> old" by auto
      have "w_conns w' b = w_conns w b"
        using that(2) b(2) by (simp add: w'_def handler_bound_def destroyed_def)
      with others[OF b] show ?thesis by simp
    qed
    have "lookup_scan w' (remove1 old ?cl) pid = Inr (Some c)"
      using oth by (intro lookup_scan_first[OF here cc]) auto
    then have lk': "auth_client_connection_lookup w' ?l pid = Inr (Some c)"
      by (simp add: auth_client_connection_lookup_def cl)
    show ?thesis
      using hs res ev cnt cl gone here cc lk' by (intro exI[of _ w']) simp
  qed
  have reject: "\<exists>w'. auth_client_input E w c = Inr w' \<and>
              new_events w w' =
                [EvIStreamRead c, EvIStreamRead old,
                 EvError ''BUG: Authentication client gave a PID %u of existing connection'' [pid]]
                @ close_events c cn @ (if 1 < c_refcount cn then [] else free_events c) \<and>
              count_list (new_events w w') (EvIStreamRead old) = 1 \<and>
              l_clients (w_listeners w' (c_listener cn)) =
                remove1 c (l_clients (w_listeners w (c_listener cn))) \<and>
              c \<notin> set (l_clients (w_listeners w' (c_listener cn))) \<and>
              old \<in> set (l_clients (w_listeners w' (c_listener cn))) \<and>
              w_conns w' old = Some (on\<lparr>c_input := inpo\<rparr>) \<and>
              (\<forall>cn'. w_conns w' c = Some cn' \<longrightarrow> c_fd cn' = - 1 \<and> c_request_handler cn' = None) \<and>
              auth_client_connection_lookup w' (c_listener cn) pid = Inr (Some old)"
    if ro: "ro \<noteq> - 1"
  proof -
    let ?on2 = "on\<lparr>c_input := inpo\<rparr>"
    let ?cn1 = "cn\<lparr>c_input := advanced inp\<rparr>"
    define w' where "w' = destroyed E
            (log_ev [EvError
               ''BUG: Authentication client gave a PID %u of existing connection'' [pid]]
               (set_conn old ?on2
                  (log_ev [EvIStreamRead old]
                     (set_conn c ?cn1
                        (set_conn c (cn\<lparr>c_input := inp\<rparr>) (log_ev [EvIStreamRead c] w))))))
            c ?cn1"
    have res: "auth_client_input E w c = Inr w'"
      unfolding w'_def
      using duplicate_rejected[OF c h v p0 rc fd r ln cp pid lk o rd ro live] .
    have ce: "close_events c ?cn1 = close_events c cn"
      "refs_after_destroy E ?cn1 = c_refcount cn - 1"
      using h by (simp_all add: close_events_def refs_after_destroy_def)
    have ev: "new_events w w' =
                [EvIStreamRead c, EvIStreamRead old,
                 EvError ''BUG: Authentication client gave a PID %u of existing connection'' [pid]]
                @ close_events c cn @ (if 1 < c_refcount cn then [] else free_events c)"
      by (simp add: w'_def destroyed_def ce new_events_def)
    have cnt: "count_list (new_events w w') (EvIStreamRead old) = 1"
      using ne by (simp add: ev)
    have cl: "l_clients (w_listeners w' ?l) = remove1 c ?cl"
      by (simp add: w'_def destroyed_def)
    have gone: "c \<notin> set (remove1 c ?cl)" using dist by simp
    have here: "old \<in> set (remove1 c ?cl)" using om ne by simp
    have oo: "w_conns w' old = Some ?on2" using ne by (simp add: w'_def destroyed_def)
    have cc: "\<forall>cn'. w_conns w' c = Some cn' \<longrightarrow> c_fd cn' = - 1 \<and> c_request_handler cn' = None"
      using h by (simp add: w'_def destroyed_def closed_conn_def)
    have oth: "\<exists>bn. w_conns w' b = Some bn \<and> c_pid bn \<noteq> pid"
      if "b \<in> set (remove1 c ?cl)" "b \<noteq> old" for b
    proof -
      from that(1) dist have b: "b \<in> set ?cl" "b \<noteq> c" by auto
      have "w_conns w' b = w_conns w b"
        using that(2) b(2) by (simp add: w'_def destroyed_def)
      with others[OF b(1) that(2)] show ?thesis by simp
    qed
    have "lookup_scan w' (remove1 c ?cl) pid = Inr (Some old)"
      using oth opid by (intro lookup_scan_first[OF here oo]) auto
    then have lk': "auth_client_connection_lookup w' ?l pid = Inr (Some old)"
      by (simp add: auth_client_connection_lookup_def cl)
    show ?thesis
      using res ev cnt cl gone here oo cc lk' by (intro exI[of _ w']) simp
  qed
  show ?thesis using accept reject by blast
qed

theorem duplicate_pid_reconciliation_witness:
  "(\<exists>w'. auth_client_input ex_env (ex_world_dup [RdEof]) 11 = Inr w' \<and>
      count_list (new_events (ex_world_dup [RdEof]) w') (EvIStreamRead 10) = 1 \<and>
      l_clients (w_listeners w' 0) = [12, 11] \<and>
      auth_client_connection_lookup w' 0 555 = Inr (Some 11)) \<and>
   (\<exists>w'. auth_client_input ex_env (ex_world_dup [RdNothing]) 11 = Inr w' \<and>
      count_list (new_events (ex_world_dup [RdNothing]) w') (EvIStreamRead 10) = 1 \<and>
      l_clients (w_listeners w' 0) = [12, 10] \<and>
      auth_client_connection_lookup w' 0 555 = Inr (Some 10))"
proof -
  let ?cn = "ex_handshaking_conn\<lparr>c_input := ex_istream\<lparr>is_script := [RdLines [ex_cpid_line ''555'']]\<rparr>\<rparr>"
  let ?on = "\<lambda>s. ex_conn\<lparr>c_input := ex_istream\<lparr>is_script := s\<rparr>\<rparr>"
  have c: "w_conns (ex_world_dup s) 11 = Some ?cn" for s
    by (simp add: ex_world_dup_def ex_world_awaiting_pid_def)
  have o: "w_conns (ex_world_dup s) 10 = Some (?on s)" for s
    by (simp add: ex_world_dup_def)
  have w12: "w_conns (ex_world_dup s) 12 = Some ex_other_conn" for s
    by (simp add: ex_world_dup_def ex_world_awaiting_pid_def ex_world3_def)
  have f: "c_request_handler ?cn = None" "c_version_received ?cn" "c_pid ?cn = 0"
    "c_listener ?cn = 0"
    by (simp_all add: ex_handshaking_conn_def ex_conn_def)
  have cl: "l_clients (w_listeners (ex_world_dup s) 0) = [12, 10, 11]" for s
    by (simp add: ex_world_dup_def ex_world_awaiting_pid_def ex_world3_def)
  have reg: "registry_ok (ex_world_dup s) (c_listener ?cn)"
    "11 \<in> set (l_clients (w_listeners (ex_world_dup s) (c_listener ?cn)))"
    "pid_claimed_once (ex_world_dup s) (c_listener ?cn) 555" for s
    by (simp_all add: registry_ok_def pid_claimed_once_def f cl c o w12 refs_ok_def
        ex_other_conn_def ex_handshaking_conn_def ex_conn_def)
  have r: "i_stream_read (c_input ?cn) =
             (1 + int (length (ex_cpid_line ''555'')),
              ex_istream\<lparr>is_script := [], is_lines := [ex_cpid_line ''555'']\<rparr>)"
    by (simp add: i_stream_read_def ex_istream_def)
  have l: "is_lines (ex_istream\<lparr>is_script := [], is_lines := [ex_cpid_line ''555'']\<rparr>) =
           [ex_cpid_line ''555'']"
    by simp
  have p: "strncmp_eq (ex_cpid_line ''555'') (''CPID'' @ [CHR 0x09]) 5"
    "strtoul_uint (drop 5 (ex_cpid_line ''555'')) = 555" "(555::nat) \<noteq> 0"
    by (simp_all add: ex_cpid_line_def strncmp_eq_def c_str_def ex_parse)
  have lk: "auth_client_connection_lookup (ex_world_dup s) (c_listener ?cn) 555 = Inr (Some 10)"
    for s
    by (simp add: auth_client_connection_lookup_def f cl o w12 ex_other_conn_def ex_conn_def)
  have rd: "i_stream_read (c_input (?on [RdEof])) = (- 1, ex_istream\<lparr>is_script := []\<rparr>)"
    "i_stream_read (c_input (?on [RdNothing])) = (0, ex_istream\<lparr>is_script := []\<rparr>)"
    by (simp_all add: i_stream_read_def ex_istream_def)
  note t = duplicate_pid_reconciliation[OF c f(1-3) reg r _ _ _ l p lk o, where E = ex_env]
  have g1: "\<exists>w'. auth_client_input ex_env (ex_world_dup [RdEof]) 11 = Inr w' \<and>
      count_list (new_events (ex_world_dup [RdEof]) w') (EvIStreamRead 10) = 1 \<and>
      l_clients (w_listeners w' 0) = [12, 11] \<and>
      auth_client_connection_lookup w' 0 555 = Inr (Some 11)"
    using t[OF _ _ _ rd(1)] by (auto simp: f cl)
  have g2: "\<exists>w'. auth_client_input ex_env (ex_world_dup [RdNothing]) 11 = Inr w' \<and>
      count_list (new_events (ex_world_dup [RdNothing]) w') (EvIStreamRead 10) = 1 \<and>
      l_clients (w_listeners w' 0) = [12, 10] \<and>
      auth_client_connection_lookup w' 0 555 = Inr (Some 10)"
    using t[OF _ _ _ rd(2)] by (auto simp: f cl)
  show ?thesis using g1 g2 by simp
qed

section \<open>Scrubbing the line buffer\<close>









section \<open>A reply after the connection was destroyed\<close>

text \<open>
  C10, that the reference count exceeds 1 whenever the reply callback delivers a reply,
  does not hold of the code. A connection is created, completes the handshake and begins
  an authentication that the engine leaves pending; its count is 2, the registry's
  reference and the engine's. The peer disconnects: the read callback destroys the
  connection, the engine keeps its reference because it does not release synchronously,
  and the count is 1. When the engine then delivers the reply of the pending request, the
  assertion at the top of \<open>auth_client_send\<close> fails.
\<close>

theorem reply_after_destroy_fails_assertion:
  "(case auth_client_connection_create ex_pending_env ex_empty_world 0 7 ex_session [] of
      Inr (Some c, w1) \<Rightarrow>
        (case auth_client_input ex_pending_env w1 c of
           Inr w2 \<Rightarrow>
             (case auth_client_input ex_pending_env w2 c of
                Inr w3 \<Rightarrow>
                  map_option c_refcount (w_conns w2 c) = Some 2 \<and>
                  map_option c_refcount (w_conns w3 c) = Some 1 \<and>
                  map_option c_request_handler (w_conns w3 c) = Some (Some 0) \<and>
                  auth_callback w3 (Some ''OK'') c = Inl (AssertFailed ''conn->refcount > 1'')
              | Inl e \<Rightarrow> False)
         | Inl e \<Rightarrow> False)
    | _ \<Rightarrow> False)"
  by (simp add: auth_client_connection_create_def ex_empty_world_def ex_listener_def Let_def
      o_stream_send_def log_ev_def ex_session_def auth_client_input_def i_stream_read_def
      set_conn_def i_stream_next_line_def version_mismatch_def ex_version_line_def
      ex_cpid_line_def ex_auth_line_def strncmp_eq_def c_str_def t_strcut_def ex_parse
      ex_pending_env_def ex_env_def auth_client_input_cpid_def cpid_bind_def
      auth_client_connection_lookup_def auth_client_handle_line_def verbose_debug_def
      auth_request_handler_auth_begin_def safe_memset_line_def scrub_last_def
      auth_client_connection_unref_def auth_client_connection_destroy_def clients_delete_def
      i_stream_close_def o_stream_close_def auth_request_handler_unref_def bindF_def
      auth_callback_def auth_client_send_def)

end
